theory Spec2Isabelle
  imports Main
begin

section \<open>Concrete types as the template parameter sees them\<close>

text \<open>
  \<^verbatim>\<open>AnyAnimal\<close> is a class template over a concrete type \<^verbatim>\<open>T\<close>. It uses four things of
  \<^verbatim>\<open>T\<close>: \<^verbatim>\<open>sizeof(T)\<close>, \<^verbatim>\<open>alignof(T)\<close>, the const method
  \<^verbatim>\<open>print_food_requirements\<close> and the move constructor (in \<^verbatim>\<open>new (p) T(std::move(x))\<close>);
  the destructor is run through \<^verbatim>\<open>std::destroy_at\<close>.
  A concrete type is a record of these; \<open>'v\<close> is the type of object states.
  The method is the text it writes to \<^verbatim>\<open>std::cout\<close>; the move constructor maps the state
  of its argument to the state of the new object and the state it leaves the argument in.
  Both are functions of the state: they say what a member does when it returns. A move
  constructor that throws is the subject of a section of its own, below; a member that
  does not return is not modelled.
\<close>

type_synonym addr = nat

record 'v ctype =
  type_name :: string
  sizeof :: nat
  alignof :: nat
  T_print_food_requirements :: "'v \<Rightarrow> string"
  T_move_ctor :: "'v \<Rightarrow> 'v \<times> 'v"

text \<open>
  What the build fixes and the source does not: \<^verbatim>\<open>alignof(std::max_align_t)\<close>, whether
  \<^verbatim>\<open>NDEBUG\<close> is defined (it compiles \<^verbatim>\<open>assert\<close> away), the size and alignment of an
  \<^verbatim>\<open>Animal\<close> (a vtable pointer and a \<^verbatim>\<open>std::string\<close>), and the capacity
  \<^verbatim>\<open>std::vector\<close> chooses when it has to grow.
\<close>

record platform =
  max_align :: nat
  NDEBUG :: bool
  sizeof_Animal :: nat
  alignof_Animal :: nat
  vector_growth :: "nat \<Rightarrow> nat"

subsection \<open>The Animal hierarchy\<close>

record Animal =
  name :: string

definition Animal_ctor :: "string \<Rightarrow> Animal" where
  "Animal_ctor n = \<lparr>name = n\<rparr>"

definition Animal_print_food_requirements :: "Animal \<Rightarrow> string" where
  "Animal_print_food_requirements a = name a @ '' needs: ''"

definition Elephant_ctor :: Animal where
  "Elephant_ctor = Animal_ctor ''Elephant''"

definition Elephant_print_food_requirements :: "Animal \<Rightarrow> string" where
  "Elephant_print_food_requirements a =
     Animal_print_food_requirements a @ ''hay, fruit, vegetables (300kg/day)''"

definition Zebra_ctor :: Animal where
  "Zebra_ctor = Animal_ctor ''Zebra''"

definition Zebra_print_food_requirements :: "Animal \<Rightarrow> string" where
  "Zebra_print_food_requirements a =
     Animal_print_food_requirements a @ ''hay, grass (15kg/day)''"

definition Lion_ctor :: Animal where
  "Lion_ctor = Animal_ctor ''Lion''"

definition Lion_print_food_requirements :: "Animal \<Rightarrow> string" where
  "Lion_print_food_requirements a =
     Animal_print_food_requirements a @ ''meat (11kg/day)''"


definition Penguin_print_food_requirements :: "Animal \<Rightarrow> string" where
  "Penguin_print_food_requirements a =
     Animal_print_food_requirements a @ ''fish (2kg/day)''"

text \<open>
  \<^verbatim>\<open>Animal\<close> declares its destructor, so it has no implicit move constructor: the implicit
  move constructor of a derived class initialises the base with \<^verbatim>\<open>Animal\<close>'s copy
  constructor. The new object gets a copy of the name and the argument keeps its own.
\<close>

definition Animal_move_ctor :: "Animal \<Rightarrow> Animal \<times> Animal" where
  "Animal_move_ctor a = (\<lparr>name = name a\<rparr>, a)"

definition Elephant :: "platform \<Rightarrow> Animal ctype" where
  "Elephant p = \<lparr>type_name = ''Elephant'', sizeof = sizeof_Animal p, alignof = alignof_Animal p,
     T_print_food_requirements = Elephant_print_food_requirements,
     T_move_ctor = Animal_move_ctor\<rparr>"

definition Zebra :: "platform \<Rightarrow> Animal ctype" where
  "Zebra p = \<lparr>type_name = ''Zebra'', sizeof = sizeof_Animal p, alignof = alignof_Animal p,
     T_print_food_requirements = Zebra_print_food_requirements,
     T_move_ctor = Animal_move_ctor\<rparr>"

definition Lion :: "platform \<Rightarrow> Animal ctype" where
  "Lion p = \<lparr>type_name = ''Lion'', sizeof = sizeof_Animal p, alignof = alignof_Animal p,
     T_print_food_requirements = Lion_print_food_requirements,
     T_move_ctor = Animal_move_ctor\<rparr>"

definition Penguin :: "platform \<Rightarrow> Animal ctype" where
  "Penguin p = \<lparr>type_name = ''Penguin'', sizeof = sizeof_Animal p, alignof = alignof_Animal p,
     T_print_food_requirements = Penguin_print_food_requirements,
     T_move_ctor = Animal_move_ctor\<rparr>"

section \<open>The store\<close>

text \<open>
  A container is a buffer and a table pointer. The buffer either holds no live object or
  one live object, which has a type and a state; its bytes are not modelled. The table
  pointer is null or the address of \<^verbatim>\<open>vtable_for<T>\<close>, of which there is one per type, so
  the pointer is named by \<^verbatim>\<open>T\<close>. The members \<^verbatim>\<open>storage_\<close> and \<^verbatim>\<open>name_\<close> are \<open>storage\<close>
  and \<open>name\<close> here.

  Containers live at addresses, since move assignment compares \<^verbatim>\<open>this\<close> with
  \<^verbatim>\<open>&other\<close>. The world is the store of live containers, the text written to
  \<^verbatim>\<open>std::cout\<close>, and the lifetime events of objects inside buffers (a placement new, a
  \<^verbatim>\<open>std::destroy_at\<close>), each with the address of the container.
\<close>

datatype 'v object = Object (dyn_type: "'v ctype") (obj_state: 'v)

record 'v AnyAnimal =
  storage :: "'v object option"
  vptr :: "'v ctype option"

text \<open>The two states of a container.\<close>

abbreviation Empty :: "'v AnyAnimal" where
  "Empty \<equiv> \<lparr>storage = None, vptr = None\<rparr>"

abbreviation Holding :: "'v ctype \<Rightarrow> 'v \<Rightarrow> 'v AnyAnimal" where
  "Holding T v \<equiv> \<lparr>storage = Some (Object T v), vptr = Some T\<rparr>"

datatype 'v event = PlacementNew addr "'v object" | DestroyAt addr "'v object"

record 'v world =
  heap :: "addr \<Rightarrow> 'v AnyAnimal option"
  cout :: string
  trace :: "'v event list"

text \<open>
  The source has one check, the \<^verbatim>\<open>assert\<close>. Everything else it takes for granted: that a
  reference names a live container, that the memory cast to \<^verbatim>\<open>T*\<close> holds a live
  \<^verbatim>\<open>T\<close>, that a placement new gets memory with no live object, that a dereferenced
  pointer is not null. The model returns these as errors, so that a theorem can say they
  do not happen.
\<close>

datatype error = AssertionFailed string | PreconditionViolated string

definition BUFFER_SIZE :: nat where
  "BUFFER_SIZE = 128"

definition ALIGNMENT :: "platform \<Rightarrow> nat" where
  "ALIGNMENT p = max_align p"

definition empty_world :: "'v world" where
  "empty_world = \<lparr>heap = (\<lambda>a. None), cout = [], trace = []\<rparr>"

definition set_storage :: "'v world \<Rightarrow> addr \<Rightarrow> 'v object option \<Rightarrow> 'v world" where
  "set_storage w a s = w\<lparr>heap := (\<lambda>x. if x = a then map_option (\<lambda>c. c\<lparr>storage := s\<rparr>) (heap w a)
                                       else heap w x)\<rparr>"

definition set_vptr :: "'v world \<Rightarrow> addr \<Rightarrow> 'v ctype option \<Rightarrow> 'v world" where
  "set_vptr w a t = w\<lparr>heap := (\<lambda>x. if x = a then map_option (\<lambda>c. c\<lparr>vptr := t\<rparr>) (heap w a)
                                    else heap w x)\<rparr>"

definition log_event :: "'v world \<Rightarrow> 'v event \<Rightarrow> 'v world" where
  "log_event w e = w\<lparr>trace := trace w @ [e]\<rparr>"

text \<open>\<^verbatim>\<open>static_cast<T*>(data)\<close> followed by a use of the object: the buffer of the container
  at \<open>data\<close> has to hold a live \<^verbatim>\<open>T\<close>. Types are told apart by their names.\<close>

definition live_at :: "'v ctype \<Rightarrow> 'v world \<Rightarrow> addr \<Rightarrow> error + 'v" where
  "live_at T w data =
     (case heap w data of
        None \<Rightarrow> Inl (PreconditionViolated ''no container at this address'')
      | Some c \<Rightarrow>
         (case storage c of
            None \<Rightarrow> Inl (PreconditionViolated ''no live object in the buffer'')
          | Some obj \<Rightarrow>
             if type_name (dyn_type obj) = type_name T then Inr (obj_state obj)
             else Inl (PreconditionViolated ''the live object has another type'')))"

text \<open>\<^verbatim>\<open>new (dst) T(...)\<close>, the new object's state given.\<close>

definition placement_new :: "'v world \<Rightarrow> addr \<Rightarrow> 'v object \<Rightarrow> error + 'v world" where
  "placement_new w dst obj =
     (case heap w dst of
        None \<Rightarrow> Inl (PreconditionViolated ''no container at this address'')
      | Some c \<Rightarrow>
         (case storage c of
            Some old \<Rightarrow> Inl (PreconditionViolated ''placement new over a live object'')
          | None \<Rightarrow> Inr (log_event (set_storage w dst (Some obj)) (PlacementNew dst obj))))"

text \<open>\<^verbatim>\<open>std::destroy_at(static_cast<T*>(ptr))\<close>.\<close>

definition destroy_at :: "'v ctype \<Rightarrow> 'v world \<Rightarrow> addr \<Rightarrow> error + 'v world" where
  "destroy_at T w ptr =
     (case live_at T w ptr of
        Inl e \<Rightarrow> Inl e
      | Inr v \<Rightarrow> Inr (log_event (set_storage w ptr None) (DestroyAt ptr (Object T v))))"

section \<open>The dispatch table\<close>

record 'v VTable =
  print_food_requirements :: "'v world \<Rightarrow> addr \<Rightarrow> error + 'v world"
  destroy :: "'v world \<Rightarrow> addr \<Rightarrow> error + 'v world"
  move :: "'v world \<Rightarrow> addr \<Rightarrow> addr \<Rightarrow> error + 'v world"

definition vtable_for :: "'v ctype \<Rightarrow> 'v VTable" where
  "vtable_for T =
     \<lparr>print_food_requirements =
        (\<lambda>w data.
           case live_at T w data of
             Inl e \<Rightarrow> Inl e
           | Inr v \<Rightarrow> Inr (w\<lparr>cout := cout w @ T_print_food_requirements T v\<rparr>)),
      destroy = (\<lambda>w ptr. destroy_at T w ptr),
      move =
        (\<lambda>w src dst.
           case live_at T w src of
             Inl e \<Rightarrow> Inl e
           | Inr v \<Rightarrow>
              (case placement_new w dst (Object T (fst (T_move_ctor T v))) of
                 Inl e \<Rightarrow> Inl e
               | Inr w1 \<Rightarrow>
                  destroy_at T (set_storage w1 src (Some (Object T (snd (T_move_ctor T v))))) src))\<rparr>"

section \<open>The container\<close>

datatype compile_error = StaticAssertFailed string | UseOfDeletedFunction | NoMatchingFunction

text \<open>
  \<^verbatim>\<open>AnyAnimal(T obj)\<close>. The two \<^verbatim>\<open>static_assert\<close>s are checked when the template is
  instantiated for \<^verbatim>\<open>T\<close>: instantiation gives a compile error or the constructor.
  The constructor runs on memory that holds no container. The members get
  \<^verbatim>\<open>storage_{}\<close> and \<^verbatim>\<open>vptr{&vtable_for<T>}\<close>, then the body move-constructs the parameter
  into the buffer. The parameter lives in the caller's frame; its state is the argument
  \<open>obj\<close> here.
\<close>

definition AnyAnimal_ctor :: "'v ctype \<Rightarrow> 'v world \<Rightarrow> addr \<Rightarrow> 'v \<Rightarrow> error + 'v world" where
  "AnyAnimal_ctor T w this obj =
     (case heap w this of
        Some c \<Rightarrow> Inl (PreconditionViolated ''constructor run on a live container'')
      | None \<Rightarrow>
         placement_new (w\<lparr>heap := (heap w)(this \<mapsto> \<lparr>storage = None, vptr = Some T\<rparr>)\<rparr>) this
           (Object T (fst (T_move_ctor T obj))))"

definition AnyAnimal_from ::
  "platform \<Rightarrow> 'v ctype \<Rightarrow> compile_error + ('v world \<Rightarrow> addr \<Rightarrow> 'v \<Rightarrow> error + 'v world)" where
  "AnyAnimal_from p T =
     (if \<not> sizeof T \<le> BUFFER_SIZE then Inl (StaticAssertFailed ''Object too big'')
      else if \<not> alignof T \<le> ALIGNMENT p then Inl (StaticAssertFailed ''Alignment error'')
      else Inr (AnyAnimal_ctor T))"

text \<open>\<^verbatim>\<open>if (vptr) vptr->destroy(storage_);\<close>, of the destructor and of move assignment.\<close>

definition destroy_current :: "'v world \<Rightarrow> addr \<Rightarrow> error + 'v world" where
  "destroy_current w this =
     (case heap w this of
        None \<Rightarrow> Inl (PreconditionViolated ''no container at this address'')
      | Some c \<Rightarrow>
         (case vptr c of
            Some T \<Rightarrow> destroy (vtable_for T) w this
          | None \<Rightarrow> Inr w))"

text \<open>\<^verbatim>\<open>~AnyAnimal()\<close>: after the body the container is gone.\<close>

definition AnyAnimal_dtor :: "'v world \<Rightarrow> addr \<Rightarrow> error + 'v world" where
  "AnyAnimal_dtor w this =
     (case destroy_current w this of
        Inl e \<Rightarrow> Inl e
      | Inr w1 \<Rightarrow> Inr (w1\<lparr>heap := (heap w1)(this := None)\<rparr>))"

text \<open>The branch \<^verbatim>\<open>if (other.vptr) ... else ...\<close> that the move constructor and move
  assignment share.\<close>

definition move_from :: "'v world \<Rightarrow> addr \<Rightarrow> addr \<Rightarrow> error + 'v world" where
  "move_from w this other =
     (case heap w other of
        None \<Rightarrow> Inl (PreconditionViolated ''no container at this address'')
      | Some oc \<Rightarrow>
         (case vptr oc of
            Some T \<Rightarrow>
              (case move (vtable_for T) w other this of
                 Inl e \<Rightarrow> Inl e
               | Inr w1 \<Rightarrow> Inr (set_vptr (set_vptr w1 this (Some T)) other None))
          | None \<Rightarrow> Inr (set_vptr w this None)))"

text \<open>\<^verbatim>\<open>AnyAnimal(AnyAnimal&& other) noexcept\<close>: the members get their default
  initialisers (\<^verbatim>\<open>storage_{}\<close>, \<^verbatim>\<open>vptr{}\<close>), then the body runs.\<close>

definition AnyAnimal_move_ctor :: "'v world \<Rightarrow> addr \<Rightarrow> addr \<Rightarrow> error + 'v world" where
  "AnyAnimal_move_ctor w this other =
     (case heap w this of
        Some c \<Rightarrow> Inl (PreconditionViolated ''constructor run on a live container'')
      | None \<Rightarrow>
         move_from (w\<lparr>heap := (heap w)(this \<mapsto> \<lparr>storage = None, vptr = None\<rparr>)\<rparr>) this other)"

text \<open>\<^verbatim>\<open>AnyAnimal& operator=(AnyAnimal&& other) noexcept\<close>.\<close>

definition AnyAnimal_move_assign :: "'v world \<Rightarrow> addr \<Rightarrow> addr \<Rightarrow> error + 'v world" where
  "AnyAnimal_move_assign w this other =
     (if this = other then Inr w
      else
        (case destroy_current w this of
           Inl e \<Rightarrow> Inl e
         | Inr w1 \<Rightarrow> move_from w1 this other))"

text \<open>\<^verbatim>\<open>void print_food_requirements() const\<close>. With \<^verbatim>\<open>NDEBUG\<close> the \<^verbatim>\<open>assert\<close> is
  compiled away and a null \<^verbatim>\<open>vptr\<close> is dereferenced.\<close>

definition AnyAnimal_print_food_requirements ::
  "platform \<Rightarrow> 'v world \<Rightarrow> addr \<Rightarrow> error + 'v world" where
  "AnyAnimal_print_food_requirements p w this =
     (case heap w this of
        None \<Rightarrow> Inl (PreconditionViolated ''no container at this address'')
      | Some c \<Rightarrow>
         (case vptr c of
            None \<Rightarrow>
              if NDEBUG p then Inl (PreconditionViolated ''null vptr dereferenced'')
              else Inl (AssertionFailed ''Empty AnyAnimal'')
          | Some T \<Rightarrow> print_food_requirements (vtable_for T) w this))"

section \<open>Client programs\<close>

text \<open>
  What a client can do with containers, one operation at a time: construct one from a
  value of \<^verbatim>\<open>T\<close>, move-construct one from another, move-assign, destroy, invoke the
  capability. Constructing from a type that fails a \<^verbatim>\<open>static_assert\<close> is rejected by
  the compiler; every other failure is one of the run.
\<close>

datatype 'v op =
    Construct addr "'v ctype" 'v
  | MoveConstruct addr addr
  | MoveAssign addr addr
  | Destroy addr
  | Invoke addr



datatype failure = IllFormed compile_error | Failed error

definition at_run_time :: "error + 'a \<Rightarrow> failure + 'a" where
  "at_run_time r = (case r of Inl e \<Rightarrow> Inl (Failed e) | Inr x \<Rightarrow> Inr x)"

fun exec :: "platform \<Rightarrow> 'v world \<Rightarrow> 'v op \<Rightarrow> failure + 'v world" where
  "exec p w (Construct this T obj) =
     (case AnyAnimal_from p T of
        Inl ce \<Rightarrow> Inl (IllFormed ce)
      | Inr ctor \<Rightarrow> at_run_time (ctor w this obj))"
| "exec p w (MoveConstruct this other) = at_run_time (AnyAnimal_move_ctor w this other)"
| "exec p w (MoveAssign this other) = at_run_time (AnyAnimal_move_assign w this other)"
| "exec p w (Destroy this) = at_run_time (AnyAnimal_dtor w this)"
| "exec p w (Invoke this) = at_run_time (AnyAnimal_print_food_requirements p w this)"

fun run :: "platform \<Rightarrow> 'v world \<Rightarrow> 'v op list \<Rightarrow> failure + 'v world" where
  "run p w [] = Inr w"
| "run p w (x # xs) = (case exec p w x of Inl e \<Rightarrow> Inl e | Inr w' \<Rightarrow> run p w' xs)"

section \<open>The invariant of the container\<close>

definition fits :: "platform \<Rightarrow> 'v ctype \<Rightarrow> bool" where
  "fits p T = (sizeof T \<le> 128 \<and> alignof T \<le> max_align p)"

text \<open>The table pointer is null and the buffer holds no live object, or the table
  pointer is that of a type that fits and the buffer holds one live object of that type.\<close>

definition container_inv :: "platform \<Rightarrow> 'v AnyAnimal \<Rightarrow> bool" where
  "container_inv p c =
     (case vptr c of
        None \<Rightarrow> storage c = None
      | Some T \<Rightarrow> fits p T \<and> (case storage c of None \<Rightarrow> False | Some obj \<Rightarrow> dyn_type obj = T))"

definition world_inv :: "platform \<Rightarrow> 'v world \<Rightarrow> bool" where
  "world_inv p w = (\<forall>a c. heap w a = Some c \<longrightarrow> container_inv p c)"

definition is_empty :: "'v world \<Rightarrow> addr \<Rightarrow> bool" where
  "is_empty w a = (case heap w a of None \<Rightarrow> False | Some c \<Rightarrow> vptr c = None)"

definition holds :: "'v world \<Rightarrow> addr \<Rightarrow> 'v ctype \<Rightarrow> 'v \<Rightarrow> bool" where
  "holds w a T v = (heap w a = Some \<lparr>storage = Some (Object T v), vptr = Some T\<rparr>)"

text \<open>No live object in the buffer of the container at \<open>a\<close>, or one.\<close>

definition live :: "'v world \<Rightarrow> addr \<Rightarrow> bool" where
  "live w a = (case heap w a of None \<Rightarrow> False | Some c \<Rightarrow> storage c \<noteq> None)"




section \<open>A type whose move constructor changes what it prints\<close>

text \<open>
  The template takes any \<^verbatim>\<open>T\<close> with the method. This one is not in the repository:
  \<^verbatim>\<open>
  struct Tracker {
      bool odd = false;
      Tracker() = default;
      Tracker(Tracker&& o) noexcept : odd(!o.odd) {}
      void print_food_requirements() const { std::cout << (odd ? "odd" : "even"); }
  };
  \<close>
  It prints whether it is an odd or an even number of moves away from the object it
  started as.
\<close>

definition Tracker :: "bool ctype" where
  "Tracker = \<lparr>type_name = ''Tracker'', sizeof = 1, alignof = 1,
     T_print_food_requirements = (\<lambda>odd. if odd then ''odd'' else ''even''),
     T_move_ctor = (\<lambda>odd. (\<not> odd, odd))\<rparr>"


text \<open>\<^verbatim>\<open>t.print_food_requirements()\<close>, called on a value directly.\<close>

definition call_directly :: "'v ctype \<Rightarrow> 'v \<Rightarrow> 'v world \<Rightarrow> 'v world" where
  "call_directly T t w = w\<lparr>cout := cout w @ T_print_food_requirements T t\<rparr>"

text \<open>A platform to run examples on: x86-64 with libstdc++, a debug build.\<close>

definition x86_64 :: platform where
  "x86_64 = \<lparr>max_align = 16, NDEBUG = False, sizeof_Animal = 40, alignof_Animal = 8,
     vector_growth = (\<lambda>n. n + max n 1)\<rparr>"


section \<open>Which constructor and which assignment a container argument selects\<close>

text \<open>
  The class declares three constructors and two assignment operators:
  \<^verbatim>\<open>template <typename T, typename = enable_if_t<!is_same_v<decay_t<T>, AnyAnimal>>> AnyAnimal(T)\<close>,
  \<^verbatim>\<open>AnyAnimal(AnyAnimal&&)\<close>, \<^verbatim>\<open>AnyAnimal(const AnyAnimal&) = delete\<close>,
  \<^verbatim>\<open>operator=(AnyAnimal&&)\<close> and \<^verbatim>\<open>operator=(const AnyAnimal&) = delete\<close>.
  An argument of type \<^verbatim>\<open>AnyAnimal\<close> is an lvalue or an rvalue, const or not. The template
  is not a candidate for it (the \<^verbatim>\<open>enable_if\<close>); an rvalue reference binds to a non-const
  rvalue only; a reference to const binds to every argument; where both bind, the rvalue
  reference is the better match. Selecting a deleted function is a compile error.
\<close>

datatype value_category = Lvalue | Rvalue

record argument =
  category :: value_category
  is_const :: bool

datatype parameter = T_by_value | AnyAnimal_rvalue_ref | AnyAnimal_const_ref

record member_decl =
  param :: parameter
  deleted :: bool

definition constructors :: "member_decl list" where
  "constructors =
     [\<lparr>param = T_by_value, deleted = False\<rparr>,
      \<lparr>param = AnyAnimal_rvalue_ref, deleted = False\<rparr>,
      \<lparr>param = AnyAnimal_const_ref, deleted = True\<rparr>]"

definition assignment_operators :: "member_decl list" where
  "assignment_operators =
     [\<lparr>param = AnyAnimal_rvalue_ref, deleted = False\<rparr>,
      \<lparr>param = AnyAnimal_const_ref, deleted = True\<rparr>]"

fun binds :: "parameter \<Rightarrow> argument \<Rightarrow> bool" where
  "binds T_by_value a = False"
| "binds AnyAnimal_rvalue_ref a = (category a = Rvalue \<and> \<not> is_const a)"
| "binds AnyAnimal_const_ref a = True"

fun better :: "parameter \<Rightarrow> parameter \<Rightarrow> bool" where
  "better AnyAnimal_rvalue_ref AnyAnimal_const_ref = True"
| "better x y = False"

fun best :: "member_decl list \<Rightarrow> member_decl option" where
  "best [] = None"
| "best (d # ds) =
     (case best ds of
        None \<Rightarrow> Some d
      | Some e \<Rightarrow> if better (param e) (param d) then Some e else Some d)"

definition select :: "member_decl list \<Rightarrow> argument \<Rightarrow> compile_error + parameter" where
  "select decls a =
     (case best (filter (\<lambda>d. binds (param d) a) decls) of
        None \<Rightarrow> Inl (NoMatchingFunction)
      | Some d \<Rightarrow>
         if deleted d then Inl (UseOfDeletedFunction)
         else Inr (param d))"

section \<open>The roster of \<^verbatim>\<open>main\<close>\<close>

text \<open>
  \<^verbatim>\<open>std::vector<AnyAnimal>\<close> is the library's. What \<^verbatim>\<open>main\<close> uses of it: three
  pointers into a block of slots, one container per address; \<^verbatim>\<open>emplace_back\<close>
  constructs the new element in the next slot and, when the block is full, first takes
  a bigger block from the allocator, constructs the new element in it, move-constructs
  the old elements across in order and destroys the old ones. How much bigger is the
  platform's choice. The allocator hands out addresses it has not handed out before.
\<close>

record vector =
  start :: addr
  finish :: addr
  end_of_storage :: addr

record 'v state =
  world :: "'v world"
  animal_roster :: vector
  next_free :: addr

fun uninitialized_move :: "'v world \<Rightarrow> addr \<Rightarrow> addr \<Rightarrow> nat \<Rightarrow> error + 'v world" where
  "uninitialized_move w first dest 0 = Inr w"
| "uninitialized_move w first dest (Suc n) =
     (case AnyAnimal_move_ctor w dest first of
        Inl e \<Rightarrow> Inl e
      | Inr w1 \<Rightarrow> uninitialized_move w1 (Suc first) (Suc dest) n)"

fun destroy_range :: "'v world \<Rightarrow> addr \<Rightarrow> nat \<Rightarrow> error + 'v world" where
  "destroy_range w first 0 = Inr w"
| "destroy_range w first (Suc n) =
     (case AnyAnimal_dtor w first of
        Inl e \<Rightarrow> Inl e
      | Inr w1 \<Rightarrow> destroy_range w1 (Suc first) n)"

text \<open>\<^verbatim>\<open>emplace_back(T{})\<close>: the temporary is forwarded as an rvalue, so the constructor's
  by-value parameter is move-constructed from it.\<close>

definition emplace_back :: "platform \<Rightarrow> 'v ctype \<Rightarrow> 'v \<Rightarrow> 'v state \<Rightarrow> failure + 'v state" where
  "emplace_back p T tmp s =
     (let obj = fst (T_move_ctor T tmp); v = animal_roster s in
      if finish v \<noteq> end_of_storage v then
        (case exec p (world s) (Construct (finish v) T obj) of
           Inl e \<Rightarrow> Inl e
         | Inr w \<Rightarrow> Inr (s\<lparr>world := w, animal_roster := v\<lparr>finish := Suc (finish v)\<rparr>\<rparr>))
      else
        (let n = finish v - start v; new_start = next_free s; new_end = new_start + vector_growth p n in
         case exec p (world s) (Construct (new_start + n) T obj) of
           Inl e \<Rightarrow> Inl e
         | Inr w1 \<Rightarrow>
            (case at_run_time (uninitialized_move w1 (start v) new_start n) of
               Inl e \<Rightarrow> Inl e
             | Inr w2 \<Rightarrow>
                (case at_run_time (destroy_range w2 (start v) n) of
                   Inl e \<Rightarrow> Inl e
                 | Inr w3 \<Rightarrow>
                    Inr \<lparr>world = w3,
                         animal_roster = \<lparr>start = new_start, finish = Suc (new_start + n),
                                          end_of_storage = new_end\<rparr>,
                         next_free = new_end\<rparr>))))"

text \<open>The loop of \<^verbatim>\<open>main\<close>: the capability of each element in order, each followed by
  \<^verbatim>\<open>std::endl\<close>.\<close>

fun print_range :: "platform \<Rightarrow> 'v world \<Rightarrow> addr \<Rightarrow> nat \<Rightarrow> error + 'v world" where
  "print_range p w first 0 = Inr w"
| "print_range p w first (Suc n) =
     (case AnyAnimal_print_food_requirements p w first of
        Inl e \<Rightarrow> Inl e
      | Inr w1 \<Rightarrow> print_range p (w1\<lparr>cout := cout w1 @ [CHR 0x0A]\<rparr>) (Suc first) n)"

definition initial_state :: "'v state" where
  "initial_state =
     \<lparr>world = empty_world, animal_roster = \<lparr>start = 0, finish = 0, end_of_storage = 0\<rparr>,
      next_free = 1\<rparr>"

text \<open>The containers from \<open>first\<close> on hold the values of the list, in its order; and a
  roster is in order when its slots up to \<open>finish\<close> hold a list of values and nothing lives
  from \<open>finish\<close> on.\<close>

fun holds_range :: "'v world \<Rightarrow> addr \<Rightarrow> ('v ctype \<times> 'v) list \<Rightarrow> bool" where
  "holds_range w first [] = True"
| "holds_range w first (x # xs) = (holds w first (fst x) (snd x) \<and> holds_range w (Suc first) xs)"

definition roster_ok :: "'v state \<Rightarrow> ('v ctype \<times> 'v) list \<Rightarrow> bool" where
  "roster_ok s xs =
     (finish (animal_roster s) = start (animal_roster s) + length xs \<and>
      finish (animal_roster s) \<le> end_of_storage (animal_roster s) \<and>
      end_of_storage (animal_roster s) \<le> next_free s \<and>
      holds_range (world s) (start (animal_roster s)) xs \<and>
      (\<forall>a. finish (animal_roster s) \<le> a \<longrightarrow> heap (world s) a = None))"

text \<open>What a list of held values prints, one line each.\<close>

definition lines_of :: "('v ctype \<times> 'v) list \<Rightarrow> string" where
  "lines_of xs = concat (map (\<lambda>x. T_print_food_requirements (fst x) (snd x) @ [CHR 0x0A]) xs)"

text \<open>\<^verbatim>\<open>main\<close>, to the destruction of the roster at the end of its scope.\<close>

definition main :: "platform \<Rightarrow> failure + Animal world" where
  "main p =
     (case emplace_back p (Lion p) Lion_ctor initial_state of
        Inl e \<Rightarrow> Inl e
      | Inr s1 \<Rightarrow>
         (case emplace_back p (Zebra p) Zebra_ctor s1 of
            Inl e \<Rightarrow> Inl e
          | Inr s2 \<Rightarrow>
             (case emplace_back p (Elephant p) Elephant_ctor s2 of
                Inl e \<Rightarrow> Inl e
              | Inr s3 \<Rightarrow>
                 (let v = animal_roster s3; n = finish v - start v in
                  case at_run_time (print_range p (world s3) (start v) n) of
                    Inl e \<Rightarrow> Inl e
                  | Inr w \<Rightarrow> at_run_time (destroy_range w (start v) n)))))"

section \<open>Move constructors that throw\<close>

text \<open>
  The template does not ask that the move constructor of \<^verbatim>\<open>T\<close> is \<^verbatim>\<open>noexcept\<close>, and both
  moves of the container run it, in \<^verbatim>\<open>new (dst) T(std::move(*src_ptr))\<close> of the table's
  \<^verbatim>\<open>move\<close>. Whether it throws on a value is the parameter \<open>throws T v\<close> of the definitions
  of this section. Destructors are taken not to throw, as a destructor is \<^verbatim>\<open>noexcept\<close>
  unless it is declared otherwise. An operation stops in one of three ways: an exception
  leaves it, the process is terminated, or a precondition of the store is violated.
\<close>

datatype stop = ExceptionThrown | Terminated | Violated error

definition checked :: "error + 'a \<Rightarrow> stop + 'a" where
  "checked r = (case r of Inl e \<Rightarrow> Inl (Violated e) | Inr x \<Rightarrow> Inr x)"

text \<open>The \<^verbatim>\<open>move\<close> lambda of the table is not \<^verbatim>\<open>noexcept\<close>. When the move constructor
  throws, no object has come to life at \<^verbatim>\<open>dst\<close>, the object at \<^verbatim>\<open>src\<close> is still alive, and
  the exception leaves the lambda. When it does not, the lambda does what
  \<open>move (vtable_for T)\<close> does.\<close>

definition vtable_move_throwing ::
  "('v ctype \<Rightarrow> 'v \<Rightarrow> bool) \<Rightarrow> 'v ctype \<Rightarrow> 'v world \<Rightarrow> addr \<Rightarrow> addr \<Rightarrow> stop + 'v world" where
  "vtable_move_throwing throws T w src dst =
     (case live_at T w src of
        Inl e \<Rightarrow> Inl (Violated e)
      | Inr v \<Rightarrow>
         if throws T v then Inl ExceptionThrown
         else checked (move (vtable_for T) w src dst))"

text \<open>The branch \<^verbatim>\<open>if (other.vptr) ... else ...\<close>: an exception of the table's \<^verbatim>\<open>move\<close>
  leaves it before either \<^verbatim>\<open>vptr\<close> is written.\<close>

definition move_from_throwing ::
  "('v ctype \<Rightarrow> 'v \<Rightarrow> bool) \<Rightarrow> 'v world \<Rightarrow> addr \<Rightarrow> addr \<Rightarrow> stop + 'v world" where
  "move_from_throwing throws w this other =
     (case heap w other of
        None \<Rightarrow> Inl (Violated (PreconditionViolated ''no container at this address''))
      | Some oc \<Rightarrow>
         (case vptr oc of
            Some T \<Rightarrow>
              (case vtable_move_throwing throws T w other this of
                 Inl s \<Rightarrow> Inl s
               | Inr w1 \<Rightarrow> Inr (set_vptr (set_vptr w1 this (Some T)) other None))
          | None \<Rightarrow> Inr (set_vptr w this None)))"

text \<open>A function declared \<^verbatim>\<open>noexcept\<close>: an exception that would leave it calls
  \<^verbatim>\<open>std::terminate\<close>.\<close>

definition noexcept :: "stop + 'a \<Rightarrow> stop + 'a" where
  "noexcept r = (case r of Inl ExceptionThrown \<Rightarrow> Inl Terminated | Inl s \<Rightarrow> Inl s | Inr x \<Rightarrow> Inr x)"

text \<open>\<^verbatim>\<open>AnyAnimal(AnyAnimal&& other) noexcept\<close> and
  \<^verbatim>\<open>AnyAnimal& operator=(AnyAnimal&& other) noexcept\<close>, with the move constructor of \<^verbatim>\<open>T\<close>
  allowed to throw.\<close>

definition AnyAnimal_move_ctor_noexcept ::
  "('v ctype \<Rightarrow> 'v \<Rightarrow> bool) \<Rightarrow> 'v world \<Rightarrow> addr \<Rightarrow> addr \<Rightarrow> stop + 'v world" where
  "AnyAnimal_move_ctor_noexcept throws w this other =
     noexcept
       (case heap w this of
          Some c \<Rightarrow> Inl (Violated (PreconditionViolated ''constructor run on a live container''))
        | None \<Rightarrow>
           move_from_throwing throws (w\<lparr>heap := (heap w)(this \<mapsto> \<lparr>storage = None, vptr = None\<rparr>)\<rparr>)
             this other)"

definition AnyAnimal_move_assign_noexcept ::
  "('v ctype \<Rightarrow> 'v \<Rightarrow> bool) \<Rightarrow> 'v world \<Rightarrow> addr \<Rightarrow> addr \<Rightarrow> stop + 'v world" where
  "AnyAnimal_move_assign_noexcept throws w this other =
     noexcept
       (if this = other then Inr w
        else
          (case destroy_current w this of
             Inl e \<Rightarrow> Inl (Violated e)
           | Inr w1 \<Rightarrow> move_from_throwing throws w1 this other))"

text \<open>The relocation of a range, as \<open>uninitialized_move\<close> does it, through the
  \<^verbatim>\<open>noexcept\<close> move constructor.\<close>

fun uninitialized_move_noexcept ::
  "('v ctype \<Rightarrow> 'v \<Rightarrow> bool) \<Rightarrow> 'v world \<Rightarrow> addr \<Rightarrow> addr \<Rightarrow> nat \<Rightarrow> stop + 'v world" where
  "uninitialized_move_noexcept throws w first dest 0 = Inr w"
| "uninitialized_move_noexcept throws w first dest (Suc n) =
     (case AnyAnimal_move_ctor_noexcept throws w dest first of
        Inl s \<Rightarrow> Inl s
      | Inr w1 \<Rightarrow> uninitialized_move_noexcept throws w1 (Suc first) (Suc dest) n)"

text \<open>
  A type whose move constructor throws. It is not in the repository, and it satisfies
  all the template asks of \<^verbatim>\<open>T\<close>:
  \<^verbatim>\<open>
  struct Brittle {
      bool moved = false;
      Brittle() = default;
      Brittle(Brittle&& o) : moved(true) { if (o.moved) throw std::bad_alloc{}; }
      void print_food_requirements() const { std::cout << "brittle"; }
  };
  \<close>
  It can be moved once; moving it again from the object that the first move built
  throws. The source of a move is left as it was.
\<close>

definition Brittle :: "bool ctype" where
  "Brittle = \<lparr>type_name = ''Brittle'', sizeof = 1, alignof = 1,
     T_print_food_requirements = (\<lambda>moved. ''brittle''),
     T_move_ctor = (\<lambda>moved. (True, moved))\<rparr>"

definition Brittle_throws :: "bool ctype \<Rightarrow> bool \<Rightarrow> bool" where
  "Brittle_throws T moved = (type_name T = ''Brittle'' \<and> moved)"

text \<open>The world after \<^verbatim>\<open>AnyAnimal(Brittle{})\<close> at address 0 and \<^verbatim>\<open>AnyAnimal(Tracker{})\<close> at
  address 1: each value in a buffer was built by one move, from the constructor's
  parameter.\<close>

definition brittle :: "bool world" where
  "brittle = \<lparr>heap = (\<lambda>a. None)(0 \<mapsto> Holding Brittle True, 1 \<mapsto> Holding Tracker True),
              cout = [],
              trace = [PlacementNew 0 (Object Brittle True), PlacementNew 1 (Object Tracker True)]\<rparr>"

section \<open>What each operation does to the world\<close>

text \<open>Each operation, run on a world where the containers it names are empty or hold a
  value, written as one update of the world.\<close>

lemma ctor_fresh:
  "heap w this = None \<Longrightarrow>
   AnyAnimal_ctor T w this obj =
     Inr (w\<lparr>heap := (heap w)(this \<mapsto> \<lparr>storage = Some (Object T (fst (T_move_ctor T obj))), vptr = Some T\<rparr>),
            trace := trace w @ [PlacementNew this (Object T (fst (T_move_ctor T obj)))]\<rparr>)"
  by (auto simp: AnyAnimal_ctor_def placement_new_def set_storage_def log_event_def fun_eq_iff)


lemma container_inv_cases:
  "container_inv p c \<Longrightarrow>
     c = \<lparr>storage = None, vptr = None\<rparr> \<or>
     (\<exists>T v. fits p T \<and> c = \<lparr>storage = Some (Object T v), vptr = Some T\<rparr>)"
  apply (cases c)
  apply (auto simp: container_inv_def split: option.splits)
  subgoal for obj by (cases obj) auto
  done

lemma world_inv_cases:
  "world_inv p w \<Longrightarrow> heap w a = Some c \<Longrightarrow>
     heap w a = Some \<lparr>storage = None, vptr = None\<rparr> \<or> (\<exists>T v. fits p T \<and> holds w a T v)"
  using container_inv_cases [of p c] by (auto simp: world_inv_def holds_def)

lemma destroy_current_holding:
  "holds w this T v \<Longrightarrow>
   destroy_current w this =
     Inr (w\<lparr>heap := (heap w)(this \<mapsto> \<lparr>storage = None, vptr = Some T\<rparr>),
            trace := trace w @ [DestroyAt this (Object T v)]\<rparr>)"
  by (auto simp: holds_def destroy_current_def vtable_for_def destroy_at_def live_at_def
        set_storage_def log_event_def fun_eq_iff)

lemma destroy_current_empty:
  "heap w this = Some c \<Longrightarrow> vptr c = None \<Longrightarrow> destroy_current w this = Inr w"
  by (simp add: destroy_current_def)

lemma move_from_holding:
  "this \<noteq> other \<Longrightarrow> holds w other T v \<Longrightarrow> heap w this = Some tc \<Longrightarrow> storage tc = None \<Longrightarrow>
   move_from w this other =
     Inr (w\<lparr>heap := (heap w)(this \<mapsto> \<lparr>storage = Some (Object T (fst (T_move_ctor T v))), vptr = Some T\<rparr>,
                             other \<mapsto> \<lparr>storage = None, vptr = None\<rparr>),
            trace := trace w @ [PlacementNew this (Object T (fst (T_move_ctor T v))),
                                DestroyAt other (Object T (snd (T_move_ctor T v)))]\<rparr>)"
  by (cases tc) (auto simp: holds_def move_from_def vtable_for_def live_at_def placement_new_def destroy_at_def
        set_storage_def set_vptr_def log_event_def fun_eq_iff)

lemma move_from_empty:
  "heap w other = Some oc \<Longrightarrow> vptr oc = None \<Longrightarrow> heap w this = Some tc \<Longrightarrow>
   move_from w this other = Inr (w\<lparr>heap := (heap w)(this \<mapsto> tc\<lparr>vptr := None\<rparr>)\<rparr>)"
  by (auto simp: move_from_def set_vptr_def fun_eq_iff)

lemma dtor_holding:
  "holds w this T v \<Longrightarrow>
   AnyAnimal_dtor w this =
     Inr (w\<lparr>heap := (heap w)(this := None), trace := trace w @ [DestroyAt this (Object T v)]\<rparr>)"
  by (simp add: AnyAnimal_dtor_def destroy_current_holding)

lemma dtor_empty:
  "heap w this = Some c \<Longrightarrow> vptr c = None \<Longrightarrow>
   AnyAnimal_dtor w this = Inr (w\<lparr>heap := (heap w)(this := None)\<rparr>)"
  by (simp add: AnyAnimal_dtor_def destroy_current_empty)

lemma move_ctor_holding:
  "heap w this = None \<Longrightarrow> holds w other T v \<Longrightarrow>
   AnyAnimal_move_ctor w this other =
     Inr (w\<lparr>heap := (heap w)(this \<mapsto> \<lparr>storage = Some (Object T (fst (T_move_ctor T v))), vptr = Some T\<rparr>,
                             other \<mapsto> \<lparr>storage = None, vptr = None\<rparr>),
            trace := trace w @ [PlacementNew this (Object T (fst (T_move_ctor T v))),
                                DestroyAt other (Object T (snd (T_move_ctor T v)))]\<rparr>)"
proof -
  assume fresh: "heap w this = None" and h: "holds w other T v"
  let ?w0 = "w\<lparr>heap := (heap w)(this \<mapsto> \<lparr>storage = None, vptr = None\<rparr>)\<rparr>"
  from fresh h have ne: "this \<noteq> other" by (auto simp: holds_def)
  with h have h0: "holds ?w0 other T v" by (simp add: holds_def)
  have "move_from ?w0 this other = 
     Inr (?w0\<lparr>heap := (heap ?w0)(this \<mapsto> \<lparr>storage = Some (Object T (fst (T_move_ctor T v))), vptr = Some T\<rparr>,
                             other \<mapsto> \<lparr>storage = None, vptr = None\<rparr>),
            trace := trace ?w0 @ [PlacementNew this (Object T (fst (T_move_ctor T v))),
                                DestroyAt other (Object T (snd (T_move_ctor T v)))]\<rparr>)"
    by (rule move_from_holding [OF ne h0, where tc = "\<lparr>storage = None, vptr = None\<rparr>"]) simp_all
  with fresh show ?thesis by (simp add: AnyAnimal_move_ctor_def)
qed

lemma move_ctor_empty:
  "heap w this = None \<Longrightarrow> heap w other = Some oc \<Longrightarrow> vptr oc = None \<Longrightarrow>
   AnyAnimal_move_ctor w this other =
     Inr (w\<lparr>heap := (heap w)(this \<mapsto> \<lparr>storage = None, vptr = None\<rparr>)\<rparr>)"
  by (auto simp: AnyAnimal_move_ctor_def move_from_def set_vptr_def fun_eq_iff)

lemma move_assign_holding_holding:
  "this \<noteq> other \<Longrightarrow> holds w this T v \<Longrightarrow> holds w other U u \<Longrightarrow>
   AnyAnimal_move_assign w this other =
     Inr (w\<lparr>heap := (heap w)(this \<mapsto> \<lparr>storage = Some (Object U (fst (T_move_ctor U u))), vptr = Some U\<rparr>,
                             other \<mapsto> \<lparr>storage = None, vptr = None\<rparr>),
            trace := trace w @ [DestroyAt this (Object T v),
                                PlacementNew this (Object U (fst (T_move_ctor U u))),
                                DestroyAt other (Object U (snd (T_move_ctor U u)))]\<rparr>)"
proof -
  assume ne: "this \<noteq> other" and ht: "holds w this T v" and ho: "holds w other U u"
  let ?w1 = "w\<lparr>heap := (heap w)(this \<mapsto> \<lparr>storage = None, vptr = Some T\<rparr>),
            trace := trace w @ [DestroyAt this (Object T v)]\<rparr>"
  from ne ho have h1: "holds ?w1 other U u" by (simp add: holds_def)
  have "move_from ?w1 this other =
     Inr (?w1\<lparr>heap := (heap ?w1)(this \<mapsto> \<lparr>storage = Some (Object U (fst (T_move_ctor U u))), vptr = Some U\<rparr>,
                             other \<mapsto> \<lparr>storage = None, vptr = None\<rparr>),
            trace := trace ?w1 @ [PlacementNew this (Object U (fst (T_move_ctor U u))),
                                DestroyAt other (Object U (snd (T_move_ctor U u)))]\<rparr>)"
    by (rule move_from_holding [OF ne h1, where tc = "\<lparr>storage = None, vptr = Some T\<rparr>"]) simp_all
  with ne show ?thesis
    by (simp add: AnyAnimal_move_assign_def destroy_current_holding [OF ht])
qed

lemma move_assign_holding_empty:
  "this \<noteq> other \<Longrightarrow> holds w this T v \<Longrightarrow> heap w other = Some oc \<Longrightarrow> vptr oc = None \<Longrightarrow>
   AnyAnimal_move_assign w this other =
     Inr (w\<lparr>heap := (heap w)(this \<mapsto> \<lparr>storage = None, vptr = None\<rparr>),
            trace := trace w @ [DestroyAt this (Object T v)]\<rparr>)"
proof -
  assume ne: "this \<noteq> other" and ht: "holds w this T v" and ho: "heap w other = Some oc" "vptr oc = None"
  let ?w1 = "w\<lparr>heap := (heap w)(this \<mapsto> \<lparr>storage = None, vptr = Some T\<rparr>),
            trace := trace w @ [DestroyAt this (Object T v)]\<rparr>"
  have "move_from ?w1 this other = Inr (?w1\<lparr>heap := (heap ?w1)(this \<mapsto> \<lparr>storage = None, vptr = Some T\<rparr>\<lparr>vptr := None\<rparr>)\<rparr>)"
    by (rule move_from_empty [of _ _ oc]) (use ne ho in simp_all)
  with ne show ?thesis
    by (simp add: AnyAnimal_move_assign_def destroy_current_holding [OF ht])
qed

lemma move_assign_empty_holding:
  "heap w this = Some \<lparr>storage = None, vptr = None\<rparr> \<Longrightarrow> holds w other U u \<Longrightarrow>
   AnyAnimal_move_assign w this other =
     Inr (w\<lparr>heap := (heap w)(this \<mapsto> \<lparr>storage = Some (Object U (fst (T_move_ctor U u))), vptr = Some U\<rparr>,
                             other \<mapsto> \<lparr>storage = None, vptr = None\<rparr>),
            trace := trace w @ [PlacementNew this (Object U (fst (T_move_ctor U u))),
                                DestroyAt other (Object U (snd (T_move_ctor U u)))]\<rparr>)"
proof -
  assume ht: "heap w this = Some \<lparr>storage = None, vptr = None\<rparr>" and ho: "holds w other U u"
  from ht ho have ne: "this \<noteq> other" by (auto simp: holds_def)
  have "destroy_current w this = Inr w" using ht by (simp add: destroy_current_def)
  moreover have "move_from w this other = Inr (w\<lparr>heap := (heap w)(this \<mapsto> \<lparr>storage = Some (Object U (fst (T_move_ctor U u))), vptr = Some U\<rparr>,
                             other \<mapsto> \<lparr>storage = None, vptr = None\<rparr>),
            trace := trace w @ [PlacementNew this (Object U (fst (T_move_ctor U u))),
                                DestroyAt other (Object U (snd (T_move_ctor U u)))]\<rparr>)"
    by (rule move_from_holding [OF ne ho ht]) simp
  ultimately show ?thesis using ne by (simp add: AnyAnimal_move_assign_def)
qed

lemma move_assign_empty_empty:
  "this \<noteq> other \<Longrightarrow> heap w this = Some \<lparr>storage = None, vptr = None\<rparr> \<Longrightarrow>
   heap w other = Some oc \<Longrightarrow> vptr oc = None \<Longrightarrow>
   AnyAnimal_move_assign w this other = Inr w"
  by (auto simp: AnyAnimal_move_assign_def destroy_current_def move_from_def set_vptr_def fun_eq_iff)

lemma print_holding:
  "holds w this T v \<Longrightarrow>
   AnyAnimal_print_food_requirements p w this =
     Inr (w\<lparr>cout := cout w @ T_print_food_requirements T v\<rparr>)"
  by (simp add: holds_def AnyAnimal_print_food_requirements_def vtable_for_def live_at_def)

lemma print_empty:
  "heap w this = Some c \<Longrightarrow> vptr c = None \<Longrightarrow>
   AnyAnimal_print_food_requirements p w this =
     Inl (if NDEBUG p then PreconditionViolated ''null vptr dereferenced''
          else AssertionFailed ''Empty AnyAnimal'')"
  by (simp add: AnyAnimal_print_food_requirements_def)

lemma fits_Animals:
  "fits x86_64 (Lion x86_64)" "fits x86_64 (Zebra x86_64)" "fits x86_64 (Elephant x86_64)"
  by (simp_all add: fits_def x86_64_def Lion_def Zebra_def Elephant_def)

lemma AnyAnimal_from_fits: "fits p T \<Longrightarrow> AnyAnimal_from p T = Inr (AnyAnimal_ctor T)"
  by (simp add: AnyAnimal_from_def fits_def BUFFER_SIZE_def ALIGNMENT_def)

lemma exec_Construct:
  "fits p T \<Longrightarrow> heap w this = None \<Longrightarrow>
   exec p w (Construct this T obj) =
     Inr (w\<lparr>heap := (heap w)(this \<mapsto> \<lparr>storage = Some (Object T (fst (T_move_ctor T obj))), vptr = Some T\<rparr>),
            trace := trace w @ [PlacementNew this (Object T (fst (T_move_ctor T obj)))]\<rparr>)"
  by (simp add: AnyAnimal_from_fits ctor_fresh at_run_time_def)

lemma Animal_move_ctor_copy: "Animal_move_ctor a = (a, a)"
  by (cases a) (simp add: Animal_move_ctor_def)


lemma world_inv_upd:
  "world_inv p w \<Longrightarrow> container_inv p c \<Longrightarrow> world_inv p (w\<lparr>heap := (heap w)(a \<mapsto> c)\<rparr>)"
  by (simp add: world_inv_def)

lemma container_inv_simps:
  "container_inv p \<lparr>storage = None, vptr = None\<rparr>"
  "container_inv p \<lparr>storage = Some (Object T v), vptr = Some T\<rparr> = fits p T"
  by (simp_all add: container_inv_def)












subsection \<open>Ranges of containers\<close>

lemma holds_range_cong:
  "(\<And>a. first \<le> a \<Longrightarrow> a < first + length xs \<Longrightarrow> heap w' a = heap w a) \<Longrightarrow>
   holds_range w' first xs = holds_range w first xs"
proof (induction xs arbitrary: first)
  case Nil
  then show ?case by simp
next
  case (Cons x xs)
  have "heap w' first = heap w first" using Cons.prems [of first] by simp
  moreover have "holds_range w' (Suc first) xs = holds_range w (Suc first) xs"
    by (rule Cons.IH) (use Cons.prems in simp)
  ultimately show ?case by (simp add: holds_def)
qed

lemma holds_range_append:
  "holds_range w first (xs @ ys) =
     (holds_range w first xs \<and> holds_range w (first + length xs) ys)"
  by (induction xs arbitrary: first) auto

lemma print_range_spec:
  "holds_range w first xs \<Longrightarrow>
   print_range p w first (length xs) = Inr (w\<lparr>cout := cout w @ lines_of xs\<rparr>)"
proof (induction xs arbitrary: w first)
  case Nil
  then show ?case by (simp add: lines_of_def)
next
  case (Cons x xs)
  let ?w1 = "w\<lparr>cout := cout w @ T_print_food_requirements (fst x) (snd x) @ [CHR 0x0A]\<rparr>"
  from Cons.prems have h: "holds w first (fst x) (snd x)" and r: "holds_range w (Suc first) xs"
    by simp_all
  have "holds_range ?w1 (Suc first) xs = holds_range w (Suc first) xs"
    by (rule holds_range_cong) simp
  with r have "print_range p ?w1 (Suc first) (length xs) = Inr (?w1\<lparr>cout := cout ?w1 @ lines_of xs\<rparr>)"
    by (intro Cons.IH) simp
  with h show ?case by (simp add: print_holding lines_of_def)
qed

lemma destroy_range_holding:
  "holds_range w first xs \<Longrightarrow>
   \<exists>w'. destroy_range w first (length xs) = Inr w' \<and> cout w' = cout w \<and>
        (\<forall>a. heap w' a = (if first \<le> a \<and> a < first + length xs then None else heap w a))"
proof (induction xs arbitrary: w first)
  case Nil
  then show ?case by auto
next
  case (Cons x xs)
  let ?w1 = "w\<lparr>heap := (heap w)(first := None),
               trace := trace w @ [DestroyAt first (Object (fst x) (snd x))]\<rparr>"
  from Cons.prems have h: "holds w first (fst x) (snd x)" and r: "holds_range w (Suc first) xs"
    by simp_all
  have "holds_range ?w1 (Suc first) xs = holds_range w (Suc first) xs"
    by (rule holds_range_cong) simp
  with r have "holds_range ?w1 (Suc first) xs" by simp
  from Cons.IH [OF this] obtain w' where
    w': "destroy_range ?w1 (Suc first) (length xs) = Inr w'" "cout w' = cout w"
    "\<forall>a. heap w' a = (if Suc first \<le> a \<and> a < Suc first + length xs then None else heap ?w1 a)"
    by auto
  from h w' show ?case by (auto simp: dtor_holding)
qed

lemma destroy_range_empty:
  "(\<And>i. i < n \<Longrightarrow> heap w (first + i) = Some Empty) \<Longrightarrow>
   \<exists>w'. destroy_range w first n = Inr w' \<and> cout w' = cout w \<and> trace w' = trace w \<and>
        (\<forall>a. heap w' a = (if first \<le> a \<and> a < first + n then None else heap w a))"
proof (induction n arbitrary: w first)
  case 0
  then show ?case by auto
next
  case (Suc n)
  let ?w1 = "w\<lparr>heap := (heap w)(first := None)\<rparr>"
  from Suc.prems [of 0] have e: "heap w first = Some Empty" by simp
  have "\<exists>w'. destroy_range ?w1 (Suc first) n = Inr w' \<and> cout w' = cout ?w1 \<and> trace w' = trace ?w1 \<and>
        (\<forall>a. heap w' a = (if Suc first \<le> a \<and> a < Suc first + n then None else heap ?w1 a))"
  proof (rule Suc.IH)
    fix i assume "i < n"
    with Suc.prems [of "Suc i"] show "heap ?w1 (Suc first + i) = Some Empty" by simp
  qed
  then obtain w' where
    w': "destroy_range ?w1 (Suc first) n = Inr w'" "cout w' = cout w" "trace w' = trace w"
    "\<forall>a. heap w' a = (if Suc first \<le> a \<and> a < Suc first + n then None else heap ?w1 a)"
    by auto
  from e have "AnyAnimal_dtor w first = Inr ?w1" by (simp add: dtor_empty)
  with w' show ?case by auto
qed

lemma uninitialized_move_spec:
  assumes "holds_range w first xs"
    and "\<And>i. i < length xs \<Longrightarrow> heap w (dest + i) = None"
    and "first + length xs \<le> dest"
    and "\<And>x u. x \<in> set xs \<Longrightarrow> fst (T_move_ctor (fst x) u) = u"
  shows "\<exists>w'. uninitialized_move w first dest (length xs) = Inr w' \<and> cout w' = cout w \<and>
           holds_range w' dest xs \<and>
           (\<forall>i<length xs. heap w' (first + i) = Some Empty) \<and>
           (\<forall>a. \<not> (first \<le> a \<and> a < first + length xs) \<and>
                \<not> (dest \<le> a \<and> a < dest + length xs) \<longrightarrow> heap w' a = heap w a)"
  using assms
proof (induction xs arbitrary: w first dest)
  case Nil
  then show ?case by simp
next
  case (Cons x xs)
  let ?T = "fst x" and ?v = "snd x"
  let ?w1 = "w\<lparr>heap := (heap w)(dest \<mapsto> Holding ?T ?v, first \<mapsto> Empty),
               trace := trace w @ [PlacementNew dest (Object ?T ?v),
                                   DestroyAt first (Object ?T (snd (T_move_ctor ?T ?v)))]\<rparr>"
  from Cons.prems(1) have h: "holds w first ?T ?v" and r: "holds_range w (Suc first) xs"
    by simp_all
  from Cons.prems(2) [of 0] have fr: "heap w dest = None" by simp
  from Cons.prems(4) [of x ?v] have mv: "fst (T_move_ctor ?T ?v) = ?v" by simp
  from move_ctor_holding [OF fr h] mv have m: "AnyAnimal_move_ctor w dest first = Inr ?w1"
    by simp
  have "holds_range ?w1 (Suc first) xs = holds_range w (Suc first) xs"
    by (rule holds_range_cong) (use Cons.prems(3) in auto)
  with r have 1: "holds_range ?w1 (Suc first) xs" by simp
  have 2: "heap ?w1 (Suc dest + i) = None" if "i < length xs" for i
    using Cons.prems(2) [of "Suc i"] Cons.prems(3) that by auto
  have 3: "Suc first + length xs \<le> Suc dest" using Cons.prems(3) by simp
  have 4: "fst (T_move_ctor (fst y) u) = u" if "y \<in> set xs" for y u
    using Cons.prems(4) [of y u] that by simp
  from Cons.IH [OF 1 2 3 4] obtain w' where
    w': "uninitialized_move ?w1 (Suc first) (Suc dest) (length xs) = Inr w'"
    "cout w' = cout w" "holds_range w' (Suc dest) xs"
    "\<forall>i<length xs. heap w' (Suc first + i) = Some Empty"
    "\<forall>a. \<not> (Suc first \<le> a \<and> a < Suc first + length xs) \<and>
         \<not> (Suc dest \<le> a \<and> a < Suc dest + length xs) \<longrightarrow> heap w' a = heap ?w1 a"
    by auto
  from w'(5) Cons.prems(3) have d: "heap w' dest = Some (Holding ?T ?v)"
    and f: "heap w' first = Some Empty"
    by auto
  have e: "heap w' (first + i) = Some Empty" if "i < length (x # xs)" for i
  proof (cases i)
    case 0
    with f show ?thesis by simp
  next
    case (Suc j)
    with that w'(4) show ?thesis by simp
  qed
  have g: "heap w' a = heap w a"
    if "\<not> (first \<le> a \<and> a < first + length (x # xs))" "\<not> (dest \<le> a \<and> a < dest + length (x # xs))" for a
    using w'(5) that by auto
  from m w'(1,2,3) d e g show ?case by (auto simp: holds_def)
qed

lemma move_ctor_frame:
  assumes inv: "world_inv p w" and src: "heap w other = Some oc" and fresh: "heap w this = None"
  shows "\<exists>w'. AnyAnimal_move_ctor w this other = Inr w' \<and> world_inv p w' \<and>
           (\<forall>a. a \<noteq> this \<and> a \<noteq> other \<longrightarrow> heap w' a = heap w a)"
proof -
  from world_inv_cases [OF inv src] show ?thesis
  proof (elim disjE exE conjE)
    assume e: "heap w other = Some Empty"
    let ?w' = "w\<lparr>heap := (heap w)(this \<mapsto> Empty)\<rparr>"
    from fresh e have "AnyAnimal_move_ctor w this other = Inr ?w'"
      by (simp add: move_ctor_empty)
    moreover from inv have "world_inv p ?w'"
      by (simp add: world_inv_def container_inv_simps)
    ultimately show ?thesis by simp
  next
    fix T v assume f: "fits p T" and h: "holds w other T v"
    let ?w' = "w\<lparr>heap := (heap w)(this \<mapsto> Holding T (fst (T_move_ctor T v)), other \<mapsto> Empty),
                 trace := trace w @ [PlacementNew this (Object T (fst (T_move_ctor T v))),
                                     DestroyAt other (Object T (snd (T_move_ctor T v)))]\<rparr>"
    from fresh h have "AnyAnimal_move_ctor w this other = Inr ?w'"
      by (rule move_ctor_holding)
    moreover from inv f have "world_inv p ?w'"
      by (simp add: world_inv_def container_inv_simps)
    ultimately show ?thesis by simp
  qed
qed

text \<open>Under the invariant an operation on live containers returns a world, and a failure
  is never one of the buffer: a cast that finds no live object of the type, or a placement
  over a live object.\<close>

lemma exec_total:
  assumes inv: "world_inv p w"
  shows "fits p T \<Longrightarrow> heap w this = None \<Longrightarrow> \<exists>w'. exec p w (Construct this T t) = Inr w'"
    and "heap w this = None \<Longrightarrow> heap w other \<noteq> None \<Longrightarrow> \<exists>w'. exec p w (MoveConstruct this other) = Inr w'"
    and "heap w this \<noteq> None \<Longrightarrow> heap w other \<noteq> None \<Longrightarrow> \<exists>w'. exec p w (MoveAssign this other) = Inr w'"
    and "heap w this \<noteq> None \<Longrightarrow> \<exists>w'. exec p w (Destroy this) = Inr w'"
    and "heap w this \<noteq> None \<Longrightarrow> \<not> is_empty w this \<Longrightarrow> \<exists>w'. exec p w (Invoke this) = Inr w'"
proof -
  show "fits p T \<Longrightarrow> heap w this = None \<Longrightarrow> \<exists>w'. exec p w (Construct this T t) = Inr w'"
    using exec_Construct [of p T w this t] by blast
next
  assume "heap w this = None" "heap w other \<noteq> None"
  then obtain oc where "heap w other = Some oc" by auto
  from move_ctor_frame [OF inv this \<open>heap w this = None\<close>]
  show "\<exists>w'. exec p w (MoveConstruct this other) = Inr w'"
    by (auto simp: at_run_time_def)
next
  assume "heap w this \<noteq> None" "heap w other \<noteq> None"
  then obtain tc oc where tc: "heap w this = Some tc" and oc: "heap w other = Some oc" by auto
  show "\<exists>w'. exec p w (MoveAssign this other) = Inr w'"
  proof (cases "this = other")
    case True
    then show ?thesis by (simp add: AnyAnimal_move_assign_def at_run_time_def)
  next
    case False
    from world_inv_cases [OF inv tc] world_inv_cases [OF inv oc] False show ?thesis
      by (auto simp: at_run_time_def move_assign_holding_holding move_assign_holding_empty
            move_assign_empty_holding move_assign_empty_empty)
  qed
next
  assume "heap w this \<noteq> None"
  then obtain tc where tc: "heap w this = Some tc" by auto
  from world_inv_cases [OF inv tc] show "\<exists>w'. exec p w (Destroy this) = Inr w'"
    by (auto simp: at_run_time_def dtor_holding dtor_empty)
next
  assume "heap w this \<noteq> None" "\<not> is_empty w this"
  then obtain tc where tc: "heap w this = Some tc" by auto
  from world_inv_cases [OF inv tc] \<open>\<not> is_empty w this\<close>
  show "\<exists>w'. exec p w (Invoke this) = Inr w'"
    by (auto simp: at_run_time_def print_holding is_empty_def)
qed


lemma emplace_back_spec:
  assumes ok: "roster_ok s xs"
    and fit: "fits p T"
    and grow: "\<And>n. n < vector_growth p n"
    and mv: "\<And>x u. x \<in> set xs \<Longrightarrow> fst (T_move_ctor (fst x) u) = u"
    and mvT: "\<And>u. fst (T_move_ctor T u) = u"
  shows "\<exists>s'. emplace_back p T tmp s = Inr s' \<and> roster_ok s' (xs @ [(T, tmp)]) \<and>
           cout (world s') = cout (world s)"
proof -
  let ?v = "animal_roster s" and ?w = "world s" and ?n = "length xs"
  from ok have fin: "finish ?v = start ?v + ?n" and cap: "finish ?v \<le> end_of_storage ?v"
    and nf: "end_of_storage ?v \<le> next_free s" and hr: "holds_range ?w (start ?v) xs"
    and free: "\<And>a. finish ?v \<le> a \<Longrightarrow> heap ?w a = None"
    by (simp_all add: roster_ok_def)
  show ?thesis
  proof (cases "finish ?v = end_of_storage ?v")
    case False
    let ?w1 = "?w\<lparr>heap := (heap ?w)(finish ?v \<mapsto> Holding T tmp),
                  trace := trace ?w @ [PlacementNew (finish ?v) (Object T tmp)]\<rparr>"
    let ?s' = "s\<lparr>world := ?w1, animal_roster := ?v\<lparr>finish := Suc (finish ?v)\<rparr>\<rparr>"
    have c: "exec p ?w (Construct (finish ?v) T tmp) = Inr ?w1"
      using exec_Construct [OF fit free [OF order_refl], of tmp] by (simp add: mvT)
    with False have e: "emplace_back p T tmp s = Inr ?s'"
      by (simp add: emplace_back_def Let_def mvT del: exec.simps)
    have "holds_range ?w1 (start ?v) xs = holds_range ?w (start ?v) xs"
      by (rule holds_range_cong) (use fin in simp)
    with hr fin have "holds_range ?w1 (start ?v) (xs @ [(T, tmp)])"
      by (simp add: holds_range_append holds_def)
    with fin cap nf False free have "roster_ok ?s' (xs @ [(T, tmp)])"
      by (simp add: roster_ok_def)
    with e show ?thesis by (intro exI [of _ ?s']) simp
  next
    case True
    let ?ns = "next_free s"
    let ?ne = "?ns + vector_growth p ?n"
    let ?w1 = "?w\<lparr>heap := (heap ?w)(?ns + ?n \<mapsto> Holding T tmp),
                  trace := trace ?w @ [PlacementNew (?ns + ?n) (Object T tmp)]\<rparr>"
    from fin cap nf have le: "start ?v + ?n \<le> ?ns" by simp
    then have fr: "heap ?w (?ns + ?n) = None" using free [of "?ns + ?n"] fin by simp
    have n: "finish ?v - start ?v = ?n" using fin by simp
    have c: "exec p ?w (Construct (?ns + ?n) T tmp) = Inr ?w1"
      using exec_Construct [OF fit fr, of tmp] by (simp add: mvT)
    have "holds_range ?w1 (start ?v) xs = holds_range ?w (start ?v) xs"
      by (rule holds_range_cong) (use le in simp)
    with hr have 1: "holds_range ?w1 (start ?v) xs" by simp
    have 2: "heap ?w1 (?ns + i) = None" if "i < ?n" for i
      using free [of "?ns + i"] le fin that by simp
    from uninitialized_move_spec [OF 1 2 le mv] obtain w2 where
      w2: "uninitialized_move ?w1 (start ?v) ?ns ?n = Inr w2" "cout w2 = cout ?w"
      "holds_range w2 ?ns xs" "\<forall>i<?n. heap w2 (start ?v + i) = Some Empty"
      "\<forall>a. \<not> (start ?v \<le> a \<and> a < start ?v + ?n) \<and> \<not> (?ns \<le> a \<and> a < ?ns + ?n) \<longrightarrow>
           heap w2 a = heap ?w1 a"
      by auto
    from destroy_range_empty [of ?n w2 "start ?v"] w2(4) obtain w3 where
      w3: "destroy_range w2 (start ?v) ?n = Inr w3" "cout w3 = cout w2"
      "\<forall>a. heap w3 a = (if start ?v \<le> a \<and> a < start ?v + ?n then None else heap w2 a)"
      by auto
    let ?s' = "\<lparr>world = w3,
               animal_roster = \<lparr>start = ?ns, finish = Suc (?ns + ?n), end_of_storage = ?ne\<rparr>,
               next_free = ?ne\<rparr>"
    from True c w2(1) w3(1) n have e: "emplace_back p T tmp s = Inr ?s'"
      by (simp add: emplace_back_def Let_def mvT at_run_time_def del: exec.simps)
    have "holds_range w3 ?ns xs = holds_range w2 ?ns xs"
      by (rule holds_range_cong) (use w3(3) le in simp)
    with w2(3) have a: "holds_range w3 ?ns xs" by simp
    from w3(3) w2(5) le have b: "heap w3 (?ns + ?n) = Some (Holding T tmp)" by simp
    have f: "heap w3 a = None" if "Suc (?ns + ?n) \<le> a" for a
    proof -
      from that le have "heap w3 a = heap ?w1 a" using w3(3) w2(5) by simp
      also from that le fin have "\<dots> = None" using free [of a] by simp
      finally show ?thesis .
    qed
    from a b f grow [of ?n] have "roster_ok ?s' (xs @ [(T, tmp)])"
      by (simp add: roster_ok_def holds_range_append holds_def)
    with e w3(2) w2(2) show ?thesis by (intro exI [of _ ?s']) simp
  qed
qed

lemma Animal_types_move:
  "fst (T_move_ctor (Lion p) u) = u" "fst (T_move_ctor (Zebra p) u) = u"
  "fst (T_move_ctor (Elephant p) u) = u" "fst (T_move_ctor (Penguin p) u) = u"
  by (simp_all add: Lion_def Zebra_def Elephant_def Penguin_def Animal_move_ctor_copy)

lemma roster_ok_initial: "roster_ok initial_state []"
  by (simp add: roster_ok_def initial_state_def empty_world_def)

lemma main_roster:
  assumes fit: "sizeof_Animal p \<le> 128" "alignof_Animal p \<le> max_align p"
    and grow: "\<forall>n. n < vector_growth p n"
  shows "\<exists>s1 s2 s3.
           emplace_back p (Lion p) Lion_ctor initial_state = Inr s1 \<and>
           emplace_back p (Zebra p) Zebra_ctor s1 = Inr s2 \<and>
           emplace_back p (Elephant p) Elephant_ctor s2 = Inr s3 \<and>
           roster_ok s3 [(Lion p, Lion_ctor), (Zebra p, Zebra_ctor), (Elephant p, Elephant_ctor)] \<and>
           cout (world s3) = []"
proof -
  from fit have f: "fits p (Lion p)" "fits p (Zebra p)" "fits p (Elephant p)"
    by (simp_all add: fits_def Lion_def Zebra_def Elephant_def)
  from grow have g: "n < vector_growth p n" for n by simp
  have m0: "fst (T_move_ctor (fst x) u) = u" if "x \<in> set []" for x :: "Animal ctype \<times> Animal" and u
    using that by simp
  have m1: "fst (T_move_ctor (fst x) u) = u" if "x \<in> set [(Lion p, Lion_ctor)]" for x u
    using that by (auto simp: Animal_types_move)
  have m2: "fst (T_move_ctor (fst x) u) = u"
    if "x \<in> set [(Lion p, Lion_ctor), (Zebra p, Zebra_ctor)]" for x u
    using that by (auto simp: Animal_types_move)
  from emplace_back_spec [OF roster_ok_initial f(1) g m0 Animal_types_move(1), of Lion_ctor]
  obtain s1 where s1: "emplace_back p (Lion p) Lion_ctor initial_state = Inr s1"
    "roster_ok s1 [(Lion p, Lion_ctor)]" "cout (world s1) = []"
    by (auto simp: initial_state_def empty_world_def)
  from emplace_back_spec [OF s1(2) f(2) g m1 Animal_types_move(2), of Zebra_ctor]
  obtain s2 where s2: "emplace_back p (Zebra p) Zebra_ctor s1 = Inr s2"
    "roster_ok s2 [(Lion p, Lion_ctor), (Zebra p, Zebra_ctor)]" "cout (world s2) = []"
    using s1(3) by auto
  from emplace_back_spec [OF s2(2) f(3) g m2 Animal_types_move(3), of Elephant_ctor]
  obtain s3 where s3: "emplace_back p (Elephant p) Elephant_ctor s2 = Inr s3"
    "roster_ok s3 [(Lion p, Lion_ctor), (Zebra p, Zebra_ctor), (Elephant p, Elephant_ctor)]"
    "cout (world s3) = []"
    using s2(3) by auto
  from s1(1) s2(1) s3 show ?thesis by blast
qed

lemma lines_of_roster:
  "lines_of [(Lion p, Lion_ctor), (Zebra p, Zebra_ctor), (Elephant p, Elephant_ctor)] =
     ''Lion needs: meat (11kg/day)'' @ [CHR 0x0A] @
     ''Zebra needs: hay, grass (15kg/day)'' @ [CHR 0x0A] @
     ''Elephant needs: hay, fruit, vegetables (300kg/day)'' @ [CHR 0x0A]"
  by (simp add: lines_of_def Lion_def Zebra_def Elephant_def Lion_ctor_def Zebra_ctor_def
        Elephant_ctor_def Animal_ctor_def Lion_print_food_requirements_def
        Zebra_print_food_requirements_def Elephant_print_food_requirements_def
        Animal_print_food_requirements_def)

subsection \<open>Moves when the move constructor of the held type may throw\<close>

text \<open>Where the move constructor does not throw on the held value, and where the source
  is empty, the \<^verbatim>\<open>noexcept\<close> moves are the moves of the sections above. Where it throws,
  they terminate the process.\<close>

lemma noexcept_simps:
  "noexcept (Inl ExceptionThrown) = Inl Terminated"
  "noexcept (Inl Terminated) = Inl Terminated"
  "noexcept (Inl (Violated e)) = Inl (Violated e)"
  "noexcept (Inr x) = Inr x"
  "noexcept (checked r) = checked r"
  by (simp_all add: noexcept_def checked_def split: sum.splits)

lemma noexcept_never_throws: "noexcept r \<noteq> Inl ExceptionThrown"
  by (simp add: noexcept_def split: sum.splits stop.splits)

lemma move_from_throwing_holding:
  "holds w other T v \<Longrightarrow>
   move_from_throwing throws w this other =
     (if throws T v then Inl ExceptionThrown else checked (move_from w this other))"
  by (auto simp: holds_def move_from_throwing_def vtable_move_throwing_def move_from_def
        live_at_def checked_def split: sum.splits)

lemma move_from_throwing_empty:
  "heap w other = Some oc \<Longrightarrow> vptr oc = None \<Longrightarrow>
   move_from_throwing throws w this other = checked (move_from w this other)"
  by (simp add: move_from_throwing_def move_from_def checked_def)

lemma move_ctor_noexcept_holding:
  assumes "heap w this = None" and "holds w other T v"
  shows "AnyAnimal_move_ctor_noexcept throws w this other =
           (if throws T v then Inl Terminated else checked (AnyAnimal_move_ctor w this other))"
proof -
  from assms have "this \<noteq> other" by (auto simp: holds_def)
  with assms(2) have "holds (w\<lparr>heap := (heap w)(this \<mapsto> Empty)\<rparr>) other T v"
    by (simp add: holds_def)
  from move_from_throwing_holding [OF this, of throws this] assms(1) show ?thesis
    by (simp add: AnyAnimal_move_ctor_noexcept_def AnyAnimal_move_ctor_def noexcept_simps)
qed

lemma move_ctor_noexcept_empty:
  assumes "heap w this = None" and "heap w other = Some Empty"
  shows "AnyAnimal_move_ctor_noexcept throws w this other = checked (AnyAnimal_move_ctor w this other)"
proof -
  from assms have "this \<noteq> other" by auto
  with assms(2) have "heap (w\<lparr>heap := (heap w)(this \<mapsto> Empty)\<rparr>) other = Some Empty"
    by simp
  from move_from_throwing_empty [OF this, of throws this] assms(1) show ?thesis
    by (simp add: AnyAnimal_move_ctor_noexcept_def AnyAnimal_move_ctor_def noexcept_simps)
qed

lemma move_assign_noexcept_self:
  "AnyAnimal_move_assign_noexcept throws w a a = Inr w"
  by (simp add: AnyAnimal_move_assign_noexcept_def noexcept_simps)

lemma move_assign_noexcept_holding:
  assumes inv: "world_inv p w" and tc: "heap w this = Some tc" and ne: "this \<noteq> other"
    and h: "holds w other T v"
  shows "AnyAnimal_move_assign_noexcept throws w this other =
           (if throws T v then Inl Terminated else checked (AnyAnimal_move_assign w this other))"
proof -
  from world_inv_cases [OF inv tc] show ?thesis
  proof (elim disjE exE conjE)
    assume e: "heap w this = Some Empty"
    then have d: "destroy_current w this = Inr w" by (simp add: destroy_current_def)
    from move_from_throwing_holding [OF h, of throws this] d ne show ?thesis
      by (simp add: AnyAnimal_move_assign_noexcept_def AnyAnimal_move_assign_def noexcept_simps)
  next
    fix U u assume ht: "holds w this U u"
    let ?w1 = "w\<lparr>heap := (heap w)(this \<mapsto> \<lparr>storage = None, vptr = Some U\<rparr>),
            trace := trace w @ [DestroyAt this (Object U u)]\<rparr>"
    from h ne have "holds ?w1 other T v" by (simp add: holds_def)
    from move_from_throwing_holding [OF this, of throws this] destroy_current_holding [OF ht] ne
    show ?thesis
      by (simp add: AnyAnimal_move_assign_noexcept_def AnyAnimal_move_assign_def noexcept_simps)
  qed
qed

lemma move_assign_noexcept_empty:
  assumes inv: "world_inv p w" and tc: "heap w this = Some tc" and ne: "this \<noteq> other"
    and e: "heap w other = Some Empty"
  shows "AnyAnimal_move_assign_noexcept throws w this other = checked (AnyAnimal_move_assign w this other)"
proof -
  from world_inv_cases [OF inv tc] show ?thesis
  proof (elim disjE exE conjE)
    assume "heap w this = Some Empty"
    then have d: "destroy_current w this = Inr w" by (simp add: destroy_current_def)
    from move_from_throwing_empty [OF e, of throws this] d ne show ?thesis
      by (simp add: AnyAnimal_move_assign_noexcept_def AnyAnimal_move_assign_def noexcept_simps)
  next
    fix U u assume ht: "holds w this U u"
    let ?w1 = "w\<lparr>heap := (heap w)(this \<mapsto> \<lparr>storage = None, vptr = Some U\<rparr>),
            trace := trace w @ [DestroyAt this (Object U u)]\<rparr>"
    from e ne have "heap ?w1 other = Some Empty" by simp
    from move_from_throwing_empty [OF this, of throws this] destroy_current_holding [OF ht] ne
    show ?thesis
      by (simp add: AnyAnimal_move_assign_noexcept_def AnyAnimal_move_assign_def noexcept_simps)
  qed
qed

lemma uninitialized_move_noexcept_total:
  assumes "world_inv p w"
    and "\<And>i. i < n \<Longrightarrow> heap w (first + i) \<noteq> None"
    and "\<And>i. i < n \<Longrightarrow> heap w (dest + i) = None"
    and "first + n \<le> dest"
    and "\<And>i T v. i < n \<Longrightarrow> holds w (first + i) T v \<Longrightarrow> \<not> throws T v"
  shows "\<exists>w'. uninitialized_move_noexcept throws w first dest n = Inr w' \<and>
               uninitialized_move w first dest n = Inr w'"
  using assms
proof (induction n arbitrary: w first dest)
  case 0
  then show ?case by simp
next
  case (Suc n)
  from Suc.prems(2) [of 0] obtain oc where oc: "heap w first = Some oc" by auto
  from Suc.prems(3) [of 0] have fr: "heap w dest = None" by simp
  from move_ctor_frame [OF Suc.prems(1) oc fr] obtain w1 where
    m: "AnyAnimal_move_ctor w dest first = Inr w1" and i1: "world_inv p w1"
    and fr1: "\<forall>a. a \<noteq> dest \<and> a \<noteq> first \<longrightarrow> heap w1 a = heap w a"
    by auto
  have mn: "AnyAnimal_move_ctor_noexcept throws w dest first = Inr w1"
  proof -
    from world_inv_cases [OF Suc.prems(1) oc] show ?thesis
    proof (elim disjE exE conjE)
      assume "heap w first = Some Empty"
      from move_ctor_noexcept_empty [OF fr this, of throws] m show ?thesis
        by (simp add: checked_def)
    next
      fix T v assume h: "holds w first T v"
      with Suc.prems(5) [of 0 T v] have "\<not> throws T v" by simp
      with move_ctor_noexcept_holding [OF fr h, of throws] m show ?thesis
        by (simp add: checked_def)
    qed
  qed
  have 2: "heap w1 (Suc first + i) \<noteq> None" if "i < n" for i
    using Suc.prems(2) [of "Suc i"] Suc.prems(4) fr1 that by simp
  have 3: "heap w1 (Suc dest + i) = None" if "i < n" for i
    using Suc.prems(3) [of "Suc i"] Suc.prems(4) fr1 that by simp
  have 4: "Suc first + n \<le> Suc dest" using Suc.prems(4) by simp
  have 5: "\<not> throws T v" if "i < n" "holds w1 (Suc first + i) T v" for i T v
  proof -
    from that(1) Suc.prems(4) fr1 have "heap w1 (Suc first + i) = heap w (first + Suc i)" by simp
    with that(2) have "holds w (first + Suc i) T v" by (simp add: holds_def)
    with Suc.prems(5) [of "Suc i" T v] that(1) show ?thesis by simp
  qed
  from Suc.IH [OF i1 2 3 4 5] mn m show ?case by simp
qed

lemma brittle_facts:
  "world_inv x86_64 brittle" "holds brittle 0 Brittle True" "holds brittle 1 Tracker True"
  "heap brittle 2 = None"
  "Brittle_throws Brittle True" "\<not> Brittle_throws Brittle False"
  "\<not> Brittle_throws Tracker b"
  by (auto simp: brittle_def world_inv_def container_inv_simps fits_def holds_def Brittle_def
        Tracker_def Brittle_throws_def x86_64_def)

section \<open>Construction from a value\<close>




section \<open>Moving out of a container\<close>




section \<open>The invariant\<close>




section \<open>Destruction of held values\<close>



section \<open>Invoking the capability\<close>

text \<open>
  C5. Invoking the capability needs a non-empty container. On an empty one the call is an
  error in every build, and in a build with assertions (no \<^verbatim>\<open>NDEBUG\<close>) it is the failed
  assertion. On a container that holds a value the assertion does not fire and the call
  does what calling the method on the held value directly does, the text appended to the
  output, and nothing else in the world changes.
\<close>

theorem invoke_requires_nonempty:
  assumes "world_inv p w" and "heap w this = Some c"
  shows "(vptr c = None \<longrightarrow>
            (\<exists>e. AnyAnimal_print_food_requirements p w this = Inl e) \<and>
            (\<not> NDEBUG p \<longrightarrow>
               AnyAnimal_print_food_requirements p w this = Inl (AssertionFailed ''Empty AnyAnimal''))) \<and>
         (vptr c \<noteq> None \<longrightarrow>
            (\<exists>T v. holds w this T v \<and>
               AnyAnimal_print_food_requirements p w this = Inr (call_directly T v w)))"
proof (intro conjI impI)
  assume "vptr c = None"
  with assms(2) show "\<exists>e. AnyAnimal_print_food_requirements p w this = Inl e"
    by (simp add: print_empty)
next
  assume "vptr c = None" "\<not> NDEBUG p"
  with assms(2) show "AnyAnimal_print_food_requirements p w this = Inl (AssertionFailed ''Empty AnyAnimal'')"
    by (simp add: print_empty)
next
  assume ne: "vptr c \<noteq> None"
  from world_inv_cases [OF assms] ne assms(2) obtain T v where "holds w this T v"
    by auto
  then show "\<exists>T v. holds w this T v \<and>
               AnyAnimal_print_food_requirements p w this = Inr (call_directly T v w)"
    by (auto simp: print_holding call_directly_def)
qed

theorem invoke_requires_nonempty_witness:
  "AnyAnimal_print_food_requirements x86_64
      (\<lparr>heap = (\<lambda>a. None)(0 \<mapsto> \<lparr>storage = None, vptr = None\<rparr>), cout = [], trace = []\<rparr> :: Animal world) 0
     = Inl (AssertionFailed ''Empty AnyAnimal'') \<and>
   AnyAnimal_print_food_requirements x86_64
      \<lparr>heap = (\<lambda>a. None)(0 \<mapsto> \<lparr>storage = Some (Object (Lion x86_64) Lion_ctor), vptr = Some (Lion x86_64)\<rparr>),
       cout = [], trace = []\<rparr> 0
     = Inr \<lparr>heap = (\<lambda>a. None)(0 \<mapsto> \<lparr>storage = Some (Object (Lion x86_64) Lion_ctor), vptr = Some (Lion x86_64)\<rparr>),
       cout = ''Lion needs: meat (11kg/day)'', trace = []\<rparr>"
proof -
  let ?we = "\<lparr>heap = (\<lambda>a. None)(0 \<mapsto> \<lparr>storage = None, vptr = None\<rparr>), cout = [], trace = []\<rparr> :: Animal world"
  let ?wl = "\<lparr>heap = (\<lambda>a. None)(0 \<mapsto> \<lparr>storage = Some (Object (Lion x86_64) Lion_ctor), vptr = Some (Lion x86_64)\<rparr>),
       cout = [], trace = []\<rparr>"
  have ie: "world_inv x86_64 ?we"
    by (simp add: world_inv_def container_inv_def)
  have il: "world_inv x86_64 ?wl"
    by (simp add: world_inv_def container_inv_def fits_Animals)
  have nd: "\<not> NDEBUG x86_64" by (simp add: x86_64_def)
  from invoke_requires_nonempty [OF ie, of 0 "\<lparr>storage = None, vptr = None\<rparr>"] nd
  have 1: "AnyAnimal_print_food_requirements x86_64 ?we 0 = Inl (AssertionFailed ''Empty AnyAnimal'')"
    by simp
  from invoke_requires_nonempty [OF il, of 0 "\<lparr>storage = Some (Object (Lion x86_64) Lion_ctor), vptr = Some (Lion x86_64)\<rparr>"]
  obtain T v where h: "holds ?wl 0 T v"
    and pr: "AnyAnimal_print_food_requirements x86_64 ?wl 0 = Inr (call_directly T v ?wl)"
    by auto
  from h have "T = Lion x86_64" "v = Lion_ctor" by (simp_all add: holds_def)
  with pr have 2: "AnyAnimal_print_food_requirements x86_64 ?wl 0 = Inr (call_directly (Lion x86_64) Lion_ctor ?wl)"
    by simp
  have 3: "call_directly (Lion x86_64) Lion_ctor ?wl = ?wl\<lparr>cout := ''Lion needs: meat (11kg/day)''\<rparr>"
    by (simp add: call_directly_def Lion_def Lion_ctor_def Animal_ctor_def
          Lion_print_food_requirements_def Animal_print_food_requirements_def)
  from 1 2 3 show ?thesis by simp
qed

section \<open>Self move assignment\<close>

text \<open>
  C6. For every container \<open>a\<close>, \<^verbatim>\<open>a = std::move(a)\<close> is a no-op found by comparing
  addresses: the whole world is returned as it was, so the held value, the table pointer
  and what the capability prints are unchanged, and no destructor and no relocation has
  run (the trace of lifetime events is the same).
\<close>

theorem self_move_assign_noop:
  "AnyAnimal_move_assign w a a = Inr w"
  by (simp add: AnyAnimal_move_assign_def)

section \<open>Types that do not fit\<close>

text \<open>
  C7. A type bigger than the 128 bytes of the buffer, or aligned more strictly than
  \<^verbatim>\<open>alignof(std::max_align_t)\<close>, fails a \<^verbatim>\<open>static_assert\<close> when the constructor template
  is instantiated for it. Instantiation yields the error and no constructor, whatever the
  world, the address and the value would have been, so nothing is left to run; a type
  that fits yields the constructor.
\<close>

theorem misfit_rejected_at_compile_time:
  "(128 < sizeof T \<longrightarrow> AnyAnimal_from p T = Inl (StaticAssertFailed ''Object too big'')) \<and>
   (sizeof T \<le> 128 \<and> max_align p < alignof T \<longrightarrow>
      AnyAnimal_from p T = Inl (StaticAssertFailed ''Alignment error'')) \<and>
   (128 < sizeof T \<or> max_align p < alignof T \<longrightarrow>
      (\<forall>w this obj. \<exists>ce. exec p w (Construct this T obj) = Inl (IllFormed ce))) \<and>
   (sizeof T \<le> 128 \<and> alignof T \<le> max_align p \<longrightarrow> AnyAnimal_from p T = Inr (AnyAnimal_ctor T))"
  by (auto simp: AnyAnimal_from_def BUFFER_SIZE_def ALIGNMENT_def)

theorem misfit_rejected_at_compile_time_witness:
  "AnyAnimal_from x86_64 (Tracker\<lparr>sizeof := 129\<rparr>) = Inl (StaticAssertFailed ''Object too big'') \<and>
   AnyAnimal_from x86_64 (Tracker\<lparr>alignof := 32\<rparr>) = Inl (StaticAssertFailed ''Alignment error'') \<and>
   (\<exists>ce. exec x86_64 empty_world (Construct 0 (Tracker\<lparr>sizeof := 129\<rparr>) False) = Inl (IllFormed ce)) \<and>
   AnyAnimal_from x86_64 Tracker = Inr (AnyAnimal_ctor Tracker)"
  using misfit_rejected_at_compile_time [of "Tracker\<lparr>sizeof := 129\<rparr>" x86_64]
    misfit_rejected_at_compile_time [of "Tracker\<lparr>alignof := 32\<rparr>" x86_64]
    misfit_rejected_at_compile_time [of Tracker x86_64]
  by (simp add: Tracker_def x86_64_def)

section \<open>The demo\<close>

text \<open>
  C8. On a platform where an \<^verbatim>\<open>Animal\<close> fits the buffer, whatever capacity the vector
  chooses when it grows, \<^verbatim>\<open>main\<close> runs to its end and has printed three lines, in the
  order the containers were added: the lion's meat, the zebra's hay and grass, the
  elephant's hay, fruit and vegetables, each after the name of its type. And for every
  range of containers that hold a list of values, the loop prints the line of each value
  in the order of the list, one line per element, equal values included.
\<close>

theorem main_prints_in_roster_order:
  assumes "sizeof_Animal p \<le> 128" and "alignof_Animal p \<le> max_align p"
    and "\<forall>n. n < vector_growth p n"
  shows "(\<exists>w. main p = Inr w \<and>
            cout w = ''Lion needs: meat (11kg/day)'' @ [CHR 0x0A] @
                     ''Zebra needs: hay, grass (15kg/day)'' @ [CHR 0x0A] @
                     ''Elephant needs: hay, fruit, vegetables (300kg/day)'' @ [CHR 0x0A]) \<and>
         (\<forall>w first xs. holds_range w first xs \<longrightarrow>
            print_range p w first (length xs) = Inr (w\<lparr>cout := cout w @ lines_of xs\<rparr>))"
proof
  let ?xs = "[(Lion p, Lion_ctor), (Zebra p, Zebra_ctor), (Elephant p, Elephant_ctor)]"
  from main_roster [OF assms] obtain s1 s2 s3 where
    e: "emplace_back p (Lion p) Lion_ctor initial_state = Inr s1"
    "emplace_back p (Zebra p) Zebra_ctor s1 = Inr s2"
    "emplace_back p (Elephant p) Elephant_ctor s2 = Inr s3"
    and ok: "roster_ok s3 ?xs" and c: "cout (world s3) = []"
    by blast
  let ?v = "animal_roster s3"
  from ok have n: "finish ?v - start ?v = length ?xs" and h: "holds_range (world s3) (start ?v) ?xs"
    by (simp_all add: roster_ok_def)
  let ?w4 = "world s3\<lparr>cout := cout (world s3) @ lines_of ?xs\<rparr>"
  from print_range_spec [OF h, of p]
  have pr: "print_range p (world s3) (start ?v) (length ?xs) = Inr ?w4" .
  have "holds_range ?w4 (start ?v) ?xs = holds_range (world s3) (start ?v) ?xs"
    by (rule holds_range_cong) simp
  with h have "holds_range ?w4 (start ?v) ?xs" by simp
  from destroy_range_holding [OF this] obtain w where
    w: "destroy_range ?w4 (start ?v) (length ?xs) = Inr w" "cout w = cout ?w4"
    by auto
  from e n pr w(1) have "main p = Inr w"
    by (simp add: main_def Let_def at_run_time_def)
  moreover from w(2) c have "cout w = lines_of ?xs" by simp
  ultimately show "\<exists>w. main p = Inr w \<and>
            cout w = ''Lion needs: meat (11kg/day)'' @ [CHR 0x0A] @
                     ''Zebra needs: hay, grass (15kg/day)'' @ [CHR 0x0A] @
                     ''Elephant needs: hay, fruit, vegetables (300kg/day)'' @ [CHR 0x0A]"
    by (simp only: lines_of_roster) blast
next
  show "\<forall>w first xs. holds_range w first xs \<longrightarrow>
            print_range p w first (length xs) = Inr (w\<lparr>cout := cout w @ lines_of xs\<rparr>)"
    by (simp add: print_range_spec)
qed

theorem main_prints_in_roster_order_witness:
  "\<exists>w. main x86_64 = Inr w \<and>
        cout w = ''Lion needs: meat (11kg/day)'' @ [CHR 0x0A] @
                 ''Zebra needs: hay, grass (15kg/day)'' @ [CHR 0x0A] @
                 ''Elephant needs: hay, fruit, vegetables (300kg/day)'' @ [CHR 0x0A]"
proof -
  have "sizeof_Animal x86_64 \<le> 128" "alignof_Animal x86_64 \<le> max_align x86_64"
    "\<forall>n. n < vector_growth x86_64 n"
    by (simp_all add: x86_64_def less_max_iff_disj)
  from main_prints_in_roster_order [OF this] show ?thesis by blast
qed

section \<open>Copying\<close>

text \<open>
  C9. An argument that is an lvalue, or const, can only be copied. For every such
  argument, construction and assignment both select the deleted copy operation, which is
  a compile error. Only a non-const rvalue is accepted, and it selects the move
  operation.
\<close>

theorem copying_is_rejected:
  "select constructors a =
     (if category a = Rvalue \<and> \<not> is_const a then Inr AnyAnimal_rvalue_ref
      else Inl UseOfDeletedFunction) \<and>
   select assignment_operators a =
     (if category a = Rvalue \<and> \<not> is_const a then Inr AnyAnimal_rvalue_ref
      else Inl UseOfDeletedFunction)"
  by (simp add: select_def constructors_def assignment_operators_def)

section \<open>Moves do not fail\<close>

text \<open>
  C10. Both moves of the container are declared \<^verbatim>\<open>noexcept\<close>: no exception leaves them,
  whatever the move constructor of the held type does. They complete where that
  constructor does not throw. In a world where every container satisfies the invariant,
  for every live source, move construction at an address with no container returns a
  world when the source is empty or the move constructor of its type does not throw on
  the value it holds; move assignment onto every live container returns a world under
  the same condition, and onto the source itself under none. The world is the one the
  operations of the sections above return. So does the relocation of a whole range of
  live containers into a free range above it, as a growing vector does it, when no
  value in the range makes its move constructor throw. When the move constructor throws
  on the value the source holds, move construction, and move assignment onto another
  container, terminate the process: the exception meets \<^verbatim>\<open>noexcept\<close>.
\<close>

theorem moves_complete_unless_move_throws:
  assumes "world_inv p w" and "heap w other = Some oc"
  shows "AnyAnimal_move_ctor_noexcept throws w this other \<noteq> Inl ExceptionThrown \<and>
         AnyAnimal_move_assign_noexcept throws w this other \<noteq> Inl ExceptionThrown \<and>
         (heap w this = None \<and> (\<forall>T v. holds w other T v \<longrightarrow> \<not> throws T v) \<longrightarrow>
            (\<exists>w'. AnyAnimal_move_ctor_noexcept throws w this other = Inr w' \<and>
                  AnyAnimal_move_ctor w this other = Inr w')) \<and>
         (heap w this \<noteq> None \<and> (this = other \<or> (\<forall>T v. holds w other T v \<longrightarrow> \<not> throws T v)) \<longrightarrow>
            (\<exists>w'. AnyAnimal_move_assign_noexcept throws w this other = Inr w' \<and>
                  AnyAnimal_move_assign w this other = Inr w')) \<and>
         (\<forall>T v. holds w other T v \<and> throws T v \<longrightarrow>
            (heap w this = None \<longrightarrow>
               AnyAnimal_move_ctor_noexcept throws w this other = Inl Terminated) \<and>
            (heap w this \<noteq> None \<and> this \<noteq> other \<longrightarrow>
               AnyAnimal_move_assign_noexcept throws w this other = Inl Terminated)) \<and>
         (\<forall>first dest n.
            (\<forall>i<n. heap w (first + i) \<noteq> None) \<and> (\<forall>i<n. heap w (dest + i) = None) \<and>
            first + n \<le> dest \<and> (\<forall>i<n. \<forall>T v. holds w (first + i) T v \<longrightarrow> \<not> throws T v) \<longrightarrow>
            (\<exists>w'. uninitialized_move_noexcept throws w first dest n = Inr w' \<and>
                  uninitialized_move w first dest n = Inr w'))"
proof (intro conjI impI allI)
  show "AnyAnimal_move_ctor_noexcept throws w this other \<noteq> Inl ExceptionThrown"
    unfolding AnyAnimal_move_ctor_noexcept_def by (rule noexcept_never_throws)
  show "AnyAnimal_move_assign_noexcept throws w this other \<noteq> Inl ExceptionThrown"
    unfolding AnyAnimal_move_assign_noexcept_def by (rule noexcept_never_throws)
next
  assume a: "heap w this = None \<and> (\<forall>T v. holds w other T v \<longrightarrow> \<not> throws T v)"
  then have fresh: "heap w this = None" by simp
  from move_ctor_frame [OF assms fresh] obtain w' where
    m: "AnyAnimal_move_ctor w this other = Inr w'" by blast
  from world_inv_cases [OF assms]
  have "AnyAnimal_move_ctor_noexcept throws w this other = Inr w'"
  proof (elim disjE exE conjE)
    assume "heap w other = Some Empty"
    from move_ctor_noexcept_empty [OF fresh this, of throws] m show ?thesis
      by (simp add: checked_def)
  next
    fix T v assume h: "holds w other T v"
    with a have "\<not> throws T v" by blast
    with move_ctor_noexcept_holding [OF fresh h, of throws] m show ?thesis
      by (simp add: checked_def)
  qed
  with m show "\<exists>w'. AnyAnimal_move_ctor_noexcept throws w this other = Inr w' \<and>
                  AnyAnimal_move_ctor w this other = Inr w'"
    by blast
next
  assume a: "heap w this \<noteq> None \<and> (this = other \<or> (\<forall>T v. holds w other T v \<longrightarrow> \<not> throws T v))"
  then obtain tc where tc: "heap w this = Some tc" by auto
  show "\<exists>w'. AnyAnimal_move_assign_noexcept throws w this other = Inr w' \<and>
             AnyAnimal_move_assign w this other = Inr w'"
  proof (cases "this = other")
    case True
    then show ?thesis
      by (simp add: move_assign_noexcept_self AnyAnimal_move_assign_def)
  next
    case False
    with a have nt: "\<forall>T v. holds w other T v \<longrightarrow> \<not> throws T v" by simp
    from exec_total(3) [OF assms(1), of this other] tc assms(2) obtain w' where
      m: "AnyAnimal_move_assign w this other = Inr w'"
      by (auto simp: at_run_time_def split: sum.splits)
    from world_inv_cases [OF assms]
    have "AnyAnimal_move_assign_noexcept throws w this other = Inr w'"
    proof (elim disjE exE conjE)
      assume "heap w other = Some Empty"
      from move_assign_noexcept_empty [OF assms(1) tc False this, of throws] m show ?thesis
        by (simp add: checked_def)
    next
      fix T v assume h: "holds w other T v"
      with nt have "\<not> throws T v" by blast
      with move_assign_noexcept_holding [OF assms(1) tc False h, of throws] m show ?thesis
        by (simp add: checked_def)
    qed
    with m show ?thesis by blast
  qed
next
  fix T v assume a: "holds w other T v \<and> throws T v" and fresh: "heap w this = None"
  with move_ctor_noexcept_holding [OF fresh, of other T v throws]
  show "AnyAnimal_move_ctor_noexcept throws w this other = Inl Terminated" by simp
next
  fix T v assume a: "holds w other T v \<and> throws T v" and b: "heap w this \<noteq> None \<and> this \<noteq> other"
  then obtain tc where tc: "heap w this = Some tc" by auto
  from move_assign_noexcept_holding [OF assms(1) tc, of other T v throws] a b
  show "AnyAnimal_move_assign_noexcept throws w this other = Inl Terminated" by simp
next
  fix first dest n
  assume "(\<forall>i<n. heap w (first + i) \<noteq> None) \<and> (\<forall>i<n. heap w (dest + i) = None) \<and>
            first + n \<le> dest \<and> (\<forall>i<n. \<forall>T v. holds w (first + i) T v \<longrightarrow> \<not> throws T v)"
  with uninitialized_move_noexcept_total [OF assms(1), of n first dest throws]
  show "\<exists>w'. uninitialized_move_noexcept throws w first dest n = Inr w' \<and>
             uninitialized_move w first dest n = Inr w'"
    by blast
qed

theorem moves_complete_unless_move_throws_witness:
  "AnyAnimal_move_ctor_noexcept Brittle_throws brittle 2 0 \<noteq> Inl ExceptionThrown \<and>
   (\<exists>w'. AnyAnimal_move_ctor_noexcept Brittle_throws brittle 2 1 = Inr w' \<and>
         AnyAnimal_move_ctor brittle 2 1 = Inr w') \<and>
   (\<exists>w'. AnyAnimal_move_assign_noexcept Brittle_throws brittle 0 1 = Inr w' \<and>
         AnyAnimal_move_assign brittle 0 1 = Inr w') \<and>
   (\<exists>w'. AnyAnimal_move_assign_noexcept Brittle_throws brittle 0 0 = Inr w' \<and>
         AnyAnimal_move_assign brittle 0 0 = Inr w') \<and>
   AnyAnimal_move_ctor_noexcept Brittle_throws brittle 2 0 = Inl Terminated \<and>
   AnyAnimal_move_assign_noexcept Brittle_throws brittle 1 0 = Inl Terminated \<and>
   (\<exists>w'. uninitialized_move_noexcept Brittle_throws brittle 1 2 1 = Inr w' \<and>
         uninitialized_move brittle 1 2 1 = Inr w')"
proof -
  have h0: "heap brittle 0 = Some (Holding Brittle True)"
    and h1: "heap brittle 1 = Some (Holding Tracker True)"
    using brittle_facts(2,3) by (simp_all add: holds_def)
  note from0 = moves_complete_unless_move_throws [OF brittle_facts(1) h0, of Brittle_throws]
  note from1 = moves_complete_unless_move_throws [OF brittle_facts(1) h1, of Brittle_throws]
  have n1: "\<forall>T v. holds brittle 1 T v \<longrightarrow> \<not> Brittle_throws T v"
    using h1 brittle_facts(7) by (auto simp: holds_def)
  have ne: "heap brittle 0 \<noteq> None" "heap brittle 1 \<noteq> None"
    using h0 h1 by simp_all
  have ht: "holds brittle 0 Brittle True \<and> Brittle_throws Brittle True"
    using brittle_facts(2,5) by simp
  have r: "(\<forall>i<1. heap brittle (1 + i) \<noteq> None) \<and> (\<forall>i<1. heap brittle (2 + i) = None) \<and>
      (1::nat) + 1 \<le> 2 \<and> (\<forall>i<1. \<forall>T v. holds brittle (1 + i) T v \<longrightarrow> \<not> Brittle_throws T v)"
    using n1 ne(2) brittle_facts(4) by simp
  have 1: "AnyAnimal_move_ctor_noexcept Brittle_throws brittle 2 0 \<noteq> Inl ExceptionThrown"
    by (rule from0 [of 2, THEN conjunct1])
  have 2: "\<exists>w'. AnyAnimal_move_ctor_noexcept Brittle_throws brittle 2 1 = Inr w' \<and>
         AnyAnimal_move_ctor brittle 2 1 = Inr w'"
    by (rule from1 [of 2, THEN conjunct2, THEN conjunct2, THEN conjunct1, THEN mp,
          OF conjI [OF brittle_facts(4) n1]])
  have 3: "\<exists>w'. AnyAnimal_move_assign_noexcept Brittle_throws brittle 0 1 = Inr w' \<and>
         AnyAnimal_move_assign brittle 0 1 = Inr w'"
    by (rule from1 [of 0, THEN conjunct2, THEN conjunct2, THEN conjunct2, THEN conjunct1, THEN mp,
          OF conjI [OF ne(1) disjI2 [OF n1]]])
  have 4: "\<exists>w'. AnyAnimal_move_assign_noexcept Brittle_throws brittle 0 0 = Inr w' \<and>
         AnyAnimal_move_assign brittle 0 0 = Inr w'"
    by (rule from0 [of 0, THEN conjunct2, THEN conjunct2, THEN conjunct2, THEN conjunct1, THEN mp,
          OF conjI [OF ne(1) disjI1 [OF refl]]])
  have 5: "AnyAnimal_move_ctor_noexcept Brittle_throws brittle 2 0 = Inl Terminated"
    by (rule from0 [of 2, THEN conjunct2, THEN conjunct2, THEN conjunct2, THEN conjunct2,
          THEN conjunct1, THEN spec, THEN spec, THEN mp, OF ht, THEN conjunct1, THEN mp,
          OF brittle_facts(4)])
  have 6: "AnyAnimal_move_assign_noexcept Brittle_throws brittle 1 0 = Inl Terminated"
    using from0 [of 1, THEN conjunct2, THEN conjunct2, THEN conjunct2, THEN conjunct2,
          THEN conjunct1, THEN spec, THEN spec, THEN mp, OF ht, THEN conjunct2] ne(2)
    by simp
  have 7: "\<exists>w'. uninitialized_move_noexcept Brittle_throws brittle 1 2 1 = Inr w' \<and>
         uninitialized_move brittle 1 2 1 = Inr w'"
    by (rule from1 [of 0, THEN conjunct2, THEN conjunct2, THEN conjunct2, THEN conjunct2,
          THEN conjunct2, THEN spec, THEN spec, THEN spec, THEN mp, OF r])
  from 1 2 3 4 5 6 7 show ?thesis by (intro conjI)
qed

text \<open>
  C10, as stated, fails for a type whose move constructor throws. Constructing a
  container from a \<^verbatim>\<open>Brittle\<close> and one from a \<^verbatim>\<open>Tracker\<close> succeeds, as the one move that
  each construction runs does not throw. Moving the first container then runs the move
  constructor of \<^verbatim>\<open>Brittle\<close> on an object that was moved before: it throws inside
  \<^verbatim>\<open>AnyAnimal(AnyAnimal&&) noexcept\<close>, and inside \<^verbatim>\<open>operator=(AnyAnimal&&) noexcept\<close>, and
  neither completes.
\<close>

theorem brittle_move_terminates_counterexample:
  "run x86_64 empty_world [Construct 0 Brittle False, Construct 1 Tracker False] = Inr brittle \<and>
   \<not> Brittle_throws Brittle False \<and> \<not> Brittle_throws Tracker False \<and>
   Brittle_throws Brittle True \<and>
   AnyAnimal_move_ctor_noexcept Brittle_throws brittle 2 0 = Inl Terminated \<and>
   AnyAnimal_move_assign_noexcept Brittle_throws brittle 1 0 = Inl Terminated"
proof -
  have f: "fits x86_64 Brittle" "fits x86_64 Tracker"
    by (simp_all add: fits_def Brittle_def Tracker_def x86_64_def)
  have t: "T_move_ctor Brittle False = (True, False)" "T_move_ctor Tracker False = (True, False)"
    by (simp_all add: Brittle_def Tracker_def)
  let ?w1 = "\<lparr>heap = (\<lambda>a. None)(0 \<mapsto> Holding Brittle True), cout = [],
               trace = [PlacementNew 0 (Object Brittle True)]\<rparr>"
  have 1: "exec x86_64 empty_world (Construct 0 Brittle False) = Inr ?w1"
    using exec_Construct [OF f(1), of empty_world 0 False]
    by (simp add: empty_world_def t del: exec.simps)
  have 2: "exec x86_64 ?w1 (Construct 1 Tracker False) = Inr brittle"
    using exec_Construct [OF f(2), of ?w1 1 False]
    by (simp add: brittle_def t del: exec.simps)
  have r: "run x86_64 empty_world [Construct 0 Brittle False, Construct 1 Tracker False] = Inr brittle"
    using 1 2 by (simp del: exec.simps)
  have 3: "AnyAnimal_move_ctor_noexcept Brittle_throws brittle 2 0 = Inl Terminated"
    using move_ctor_noexcept_holding [OF brittle_facts(4) brittle_facts(2), of Brittle_throws]
      brittle_facts(5) by simp
  have h1: "heap brittle 1 = Some (Holding Tracker True)"
    using brittle_facts(3) by (simp add: holds_def)
  have 4: "AnyAnimal_move_assign_noexcept Brittle_throws brittle 1 0 = Inl Terminated"
    using move_assign_noexcept_holding [OF brittle_facts(1) h1 _ brittle_facts(2), of Brittle_throws]
      brittle_facts(5) by simp
  from r 3 4 brittle_facts(5,6,7) show ?thesis by simp
qed

end
